theory Spec2Isabelle
  imports Main "HOL-Library.Char_ord" "HOL-Library.List_Lexorder" "HOL-Library.Sublist"
    "HOL-Library.AList"
begin

section \<open>Go strings as byte lists\<close>

text \<open>
  A Go \<^verbatim>\<open>string\<close> is a sequence of bytes; it is modelled as \<^typ>\<open>string\<close>
  (a list of 8-bit characters). The functions of package \<^verbatim>\<open>strings\<close> that
  \<^verbatim>\<open>main.go\<close> calls are written out below, under their Go names. Where the Go
  library leaves its ASCII fast path and consults the Unicode tables, the model calls
  a function of the record \<open>lib\<close> instead: the theorems hold for whatever the
  tables say.
\<close>

type_synonym bytes = string

definition strings_HasPrefix :: "string \<Rightarrow> string \<Rightarrow> bool" where
  \<comment> \<open>\<^verbatim>\<open>len(s) >= len(prefix) && s[:len(prefix)] == prefix\<close>\<close>
  "strings_HasPrefix s pre = (length pre \<le> length s \<and> take (length pre) s = pre)"

definition strings_TrimPrefix :: "string \<Rightarrow> string \<Rightarrow> string" where
  \<comment> \<open>\<^verbatim>\<open>if HasPrefix(s, prefix) { return s[len(prefix):] }; return s\<close>\<close>
  "strings_TrimPrefix s pre = (if strings_HasPrefix s pre then drop (length pre) s else s)"

definition isASCII :: "char \<Rightarrow> bool" where
  \<comment> \<open>\<^verbatim>\<open>c < utf8.RuneSelf\<close>\<close>
  "isASCII c = (of_char c < (128::nat))"

definition isUpper :: "char \<Rightarrow> bool" where
  "isUpper c = (CHR ''A'' \<le> c \<and> c \<le> CHR ''Z'')"

definition isLower :: "char \<Rightarrow> bool" where
  "isLower c = (CHR ''a'' \<le> c \<and> c \<le> CHR ''z'')"

definition isDigit :: "char \<Rightarrow> bool" where
  "isDigit c = (CHR ''0'' \<le> c \<and> c \<le> CHR ''9'')"

definition asciiLower :: "char \<Rightarrow> char" where
  \<comment> \<open>\<^verbatim>\<open>if 'A' <= c && c <= 'Z' { c += 'a' - 'A' }\<close>\<close>
  "asciiLower c = (if isUpper c then char_of (of_char c + (32::nat)) else c)"

definition asciiUpper :: "char \<Rightarrow> char" where
  \<comment> \<open>\<^verbatim>\<open>if 'a' <= c && c <= 'z' { c -= 'a' - 'A' }\<close>\<close>
  "asciiUpper c = (if isLower c then char_of (of_char c - (32::nat)) else c)"

definition asciiSpace :: "char \<Rightarrow> bool" where
  \<comment> \<open>the table \<^verbatim>\<open>asciiSpace\<close>: tab, newline, vertical tab, form feed, carriage return, space\<close>
  "asciiSpace c = (c = CHR 0x09 \<or> c = CHR 0x0A \<or> c = CHR 0x0B \<or> c = CHR 0x0C
                   \<or> c = CHR 0x0D \<or> c = CHR 0x20)"

fun strings_Split :: "string \<Rightarrow> char \<Rightarrow> string list" where
  \<comment> \<open>\<^verbatim>\<open>strings.Split(s, sep)\<close> for a separator of one byte: the pieces between the
      separators, in order; an empty \<open>s\<close> gives one empty piece\<close>
  "strings_Split [] sep = [[]]"
| "strings_Split (c # cs) sep =
     (if c = sep then [] # strings_Split cs sep
      else (case strings_Split cs sep of
              [] \<Rightarrow> [[c]]
            | piece # pieces \<Rightarrow> (c # piece) # pieces))"

section \<open>The library functions the handler is parametrised by\<close>

text \<open>
  \<^item> \<open>unicode_ToLower\<close>: \<^verbatim>\<open>strings.Map(unicode.ToLower, s)\<close>, called by
    \<^verbatim>\<open>strings.ToLower\<close> only on a string with a non-ASCII byte;
  \<^item> \<open>unicode_TrimFunc\<close>, \<open>unicode_TrimRightFunc\<close>: \<^verbatim>\<open>strings.TrimFunc(s, unicode.IsSpace)\<close>
    and \<^verbatim>\<open>strings.TrimRightFunc(s, unicode.IsSpace)\<close>, called by \<^verbatim>\<open>strings.TrimSpace\<close>
    only when it meets a non-ASCII byte;
  \<^item> \<open>json_Marshal\<close>: \<^verbatim>\<open>json.Marshal\<close> on a \<^verbatim>\<open>[]string\<close>, \<open>Inl\<close> the error;
  \<^item> \<open>json_Valid\<close>: whether \<^verbatim>\<open>json.Unmarshal(b, &v)\<close> returns no error;
  \<^item> \<open>gunzip\<close>: \<^verbatim>\<open>gzip.NewReader\<close> followed by \<^verbatim>\<open>io.ReadAll\<close> (lines 202-206);
  \<^item> \<open>http_NewRequest\<close>: the error of \<^verbatim>\<open>http.NewRequest(method, url, body)\<close>, if any.
\<close>

datatype gzip_result =
    NewReaderError      \<comment> \<open>\<^verbatim>\<open>gzip.NewReader\<close> returned an error (line 203)\<close>
  | ReadAllError        \<comment> \<open>\<^verbatim>\<open>io.ReadAll(reader)\<close> returned an error (line 206)\<close>
  | Decompressed bytes  \<comment> \<open>both succeeded\<close>

record lib =
  unicode_ToLower :: "string \<Rightarrow> string"
  unicode_TrimFunc :: "string \<Rightarrow> string"
  unicode_TrimRightFunc :: "string \<Rightarrow> string"
  json_Marshal :: "string list \<Rightarrow> string + string"
  json_Valid :: "bytes \<Rightarrow> bool"
  gunzip :: "bytes \<Rightarrow> gzip_result"
  http_NewRequest :: "string \<Rightarrow> string \<Rightarrow> string option"

definition strings_ToLower :: "lib \<Rightarrow> string \<Rightarrow> string" where
  "strings_ToLower L s =
     (if list_all isASCII s
      then (if \<not> list_ex isUpper s then s else map asciiLower s)
      else unicode_ToLower L s)"

fun TrimSpace_stop :: "lib \<Rightarrow> string \<Rightarrow> string" where
  \<comment> \<open>the second loop of \<^verbatim>\<open>strings.TrimSpace\<close>, on \<^verbatim>\<open>s[start:]\<close> read from its end:
      the argument is that slice reversed\<close>
  "TrimSpace_stop L [] = []"
| "TrimSpace_stop L (c # cs) =
     (if \<not> isASCII c then unicode_TrimRightFunc L (rev (c # cs))
      else if asciiSpace c then TrimSpace_stop L cs
      else rev (c # cs))"

fun strings_TrimSpace :: "lib \<Rightarrow> string \<Rightarrow> string" where
  "strings_TrimSpace L [] = TrimSpace_stop L []"
| "strings_TrimSpace L (c # cs) =
     (if \<not> isASCII c then unicode_TrimFunc L (c # cs)
      else if asciiSpace c then strings_TrimSpace L cs
      else TrimSpace_stop L (rev (c # cs)))"

section \<open>Path normalization (main.go, lines 71-85)\<close>

definition normalize_path :: "string \<Rightarrow> string" where
  "normalize_path p =
     (let path = (if strings_HasPrefix p ''/api'' then strings_TrimPrefix p ''/api'' else p)
      in if \<not> strings_HasPrefix path ''/'' then ''/'' @ path else path)"

definition target_base :: "string \<Rightarrow> string \<Rightarrow> string" where
  \<comment> \<open>\<^verbatim>\<open>fmt.Sprintf("%s%s", p.binanceURL, path)\<close> on the normalized path\<close>
  "target_base binanceURL p = binanceURL @ normalize_path p"

section \<open>Query parameters: url.Values\<close>

text \<open>
  \<^verbatim>\<open>url.Values\<close> is a Go \<^verbatim>\<open>map[string][]string\<close>. It is modelled as an association
  list read through \<^const>\<open>map_of\<close>: the map an association list \<open>q\<close> stands for is
  \<open>map_of q\<close>, and its keys are the first components, each counted once.
\<close>

type_synonym url_Values = "(string \<times> string list) list"

definition values_Set :: "url_Values \<Rightarrow> string \<Rightarrow> string \<Rightarrow> url_Values" where
  \<comment> \<open>\<^verbatim>\<open>v[key] = []string{value}\<close>\<close>
  "values_Set q key v = AList.update key [v] q"

definition upperhex :: "nat \<Rightarrow> char" where
  "upperhex n = ''0123456789ABCDEF'' ! (n mod 16)"

definition shouldEscape :: "char \<Rightarrow> bool" where
  \<comment> \<open>\<^verbatim>\<open>shouldEscape(c, encodeQueryComponent)\<close>: all but letters, digits and \<^verbatim>\<open>-_.~\<close>\<close>
  "shouldEscape c =
     (\<not> (isLower c \<or> isUpper c \<or> isDigit c
         \<or> c = CHR ''-'' \<or> c = CHR ''_'' \<or> c = CHR ''.'' \<or> c = CHR ''~''))"

fun QueryEscape :: "string \<Rightarrow> string" where
  "QueryEscape [] = []"
| "QueryEscape (c # cs) =
     (if shouldEscape c
      then (if c = CHR '' '' then CHR ''+'' # QueryEscape cs
            else CHR ''%'' # upperhex (of_char c div 16) # upperhex (of_char c mod 16)
                 # QueryEscape cs)
      else c # QueryEscape cs)"

definition values_keys :: "url_Values \<Rightarrow> string list" where
  \<comment> \<open>\<^verbatim>\<open>for k := range v { keys = append(keys, k) }; slices.Sort(keys)\<close>\<close>
  "values_keys q = sort (remdups (map fst q))"

definition values_lookup :: "url_Values \<Rightarrow> string \<Rightarrow> string list" where
  \<comment> \<open>\<^verbatim>\<open>v[k]\<close>: the nil slice for a missing key\<close>
  "values_lookup q k = (case map_of q k of None \<Rightarrow> [] | Some vs \<Rightarrow> vs)"

definition Encode_value :: "string \<Rightarrow> string \<Rightarrow> string \<Rightarrow> string" where
  \<comment> \<open>the body of the inner loop of \<^verbatim>\<open>Values.Encode\<close>, on the buffer\<close>
  "Encode_value keyEscaped buf v =
     (if length buf > 0 then buf @ ''&'' else buf) @ keyEscaped @ ''='' @ QueryEscape v"

definition values_Encode :: "url_Values \<Rightarrow> string" where
  "values_Encode q =
     (if q = [] then []
      else foldl (\<lambda>buf k. foldl (Encode_value (QueryEscape k)) buf (values_lookup q k))
             [] (values_keys q))"

definition convert_symbols :: "lib \<Rightarrow> url_Values \<Rightarrow> url_Values" where
  \<comment> \<open>main.go, lines 89-112\<close>
  "convert_symbols L queryParams =
     (case map_of queryParams ''symbols'' of
        None \<Rightarrow> queryParams
      | Some symbolsParam \<Rightarrow>
          (case symbolsParam of
             [] \<Rightarrow> queryParams
           | symbolsValue # _ \<Rightarrow>
               if \<not> strings_HasPrefix symbolsValue ''[''
               then (let symbolsList = map (strings_TrimSpace L) (strings_Split symbolsValue CHR '','')
                     in case json_Marshal L symbolsList of
                          Inr symbolsJSON \<Rightarrow> values_Set queryParams ''symbols'' symbolsJSON
                        | Inl err \<Rightarrow> queryParams)
               else queryParams))"

definition query_suffix :: "url_Values \<Rightarrow> string" where
  \<comment> \<open>lines 115-119: what is appended to \<^verbatim>\<open>targetURL\<close>\<close>
  "query_suffix queryParams =
     (if length queryParams > 0 then ''?'' @ values_Encode queryParams else [])"

section \<open>Headers: http.Header\<close>

text \<open>
  \<^verbatim>\<open>http.Header\<close> is a \<^verbatim>\<open>map[string][]string\<close> too, and its methods canonicalise
  the key they are given. A \<^verbatim>\<open>range\<close> over a Go map visits the keys in an order the
  runtime chooses; the association list gives that order, so a theorem about every
  list is a theorem about every order.
\<close>

type_synonym header = "(string \<times> string list) list"

definition validHeaderFieldByte :: "char \<Rightarrow> bool" where
  \<comment> \<open>the token characters of RFC 7230\<close>
  "validHeaderFieldByte c =
     (isLower c \<or> isUpper c \<or> isDigit c
      \<or> c \<in> set [CHR ''!'', CHR ''#'', CHR ''$'', CHR ''%'', CHR ''&'', CHR 0x27, CHR ''*'',
                  CHR ''+'', CHR ''-'', CHR ''.'', CHR ''^'', CHR ''_'', CHR 0x60, CHR ''|'',
                  CHR ''~''])"

fun canonicalMIMEHeaderKey :: "bool \<Rightarrow> string \<Rightarrow> string" where
  \<comment> \<open>the second loop of \<^verbatim>\<open>textproto.canonicalMIMEHeaderKey\<close>; the flag is \<^verbatim>\<open>upper\<close>\<close>
  "canonicalMIMEHeaderKey upper [] = []"
| "canonicalMIMEHeaderKey upper (c # cs) =
     (let c' = (if upper \<and> isLower c then asciiUpper c
                else if \<not> upper \<and> isUpper c then asciiLower c
                else c)
      in c' # canonicalMIMEHeaderKey (c' = CHR ''-'') cs)"

definition CanonicalMIMEHeaderKey :: "string \<Rightarrow> string" where
  \<comment> \<open>a key with a byte that is no token character is returned as it is\<close>
  "CanonicalMIMEHeaderKey s =
     (if list_all validHeaderFieldByte s then canonicalMIMEHeaderKey True s else s)"

definition header_values :: "header \<Rightarrow> string \<Rightarrow> string list" where
  \<comment> \<open>\<^verbatim>\<open>h[key]\<close>: the nil slice for a missing key\<close>
  "header_values h key = (case map_of h key of None \<Rightarrow> [] | Some vs \<Rightarrow> vs)"

definition header_Get :: "header \<Rightarrow> string \<Rightarrow> string" where
  "header_Get h key =
     (case header_values h (CanonicalMIMEHeaderKey key) of [] \<Rightarrow> [] | v # _ \<Rightarrow> v)"

definition header_Set :: "header \<Rightarrow> string \<Rightarrow> string \<Rightarrow> header" where
  "header_Set h key v = AList.update (CanonicalMIMEHeaderKey key) [v] h"

definition header_Add :: "header \<Rightarrow> string \<Rightarrow> string \<Rightarrow> header" where
  "header_Add h key v =
     (let k = CanonicalMIMEHeaderKey key in AList.update k (header_values h k @ [v]) h)"

definition header_Del :: "header \<Rightarrow> string \<Rightarrow> header" where
  "header_Del h key = AList.delete (CanonicalMIMEHeaderKey key) h"

definition gin_Header :: "header \<Rightarrow> string \<Rightarrow> string \<Rightarrow> header" where
  \<comment> \<open>gin's \<^verbatim>\<open>c.Header(key, value)\<close> on the writer's header: an empty value deletes the
      key, any other value replaces what the key had\<close>
  "gin_Header w key v = (if v = [] then header_Del w key else header_Set w key v)"

definition writeContentType :: "header \<Rightarrow> string \<Rightarrow> header" where
  \<comment> \<open>gin's renderers set the content type only where the writer has none\<close>
  "writeContentType w ct =
     (if length (header_values w ''Content-Type'') = 0
      then AList.update ''Content-Type'' [ct] w else w)"

section \<open>Requests and responses\<close>

record inbound_request =
  req_Method :: string
  req_Path :: string       \<comment> \<open>\<^verbatim>\<open>c.Request.URL.Path\<close>\<close>
  req_Query :: url_Values      \<comment> \<open>\<^verbatim>\<open>c.Request.URL.Query()\<close>\<close>
  req_Header :: header     \<comment> \<open>\<^verbatim>\<open>c.Request.Header\<close>\<close>
  req_Body :: bytes

record outbound_request =
  out_Method :: string
  out_URL :: string
  out_Header :: header
  out_Body :: bytes

record upstream_response =
  resp_StatusCode :: int
  resp_Header :: header
  resp_Body :: "string + bytes"   \<comment> \<open>\<^verbatim>\<open>io.ReadAll(resp.Body)\<close>, \<open>Inl\<close> the error\<close>

record ProxyServer =
  binanceURL :: string
  client_Do :: "outbound_request \<Rightarrow> string + upstream_response"
     \<comment> \<open>\<^verbatim>\<open>p.client.Do(req)\<close>, \<open>Inl\<close> the transport error as \<^verbatim>\<open>%v\<close> prints it\<close>

datatype jvalue = JNumber int | JString string

datatype payload =
    NoBody                                \<comment> \<open>nothing handed to the writer\<close>
  | JSONBody "(string \<times> jvalue) list"     \<comment> \<open>the \<^verbatim>\<open>gin.H\<close> handed to \<^verbatim>\<open>c.JSON\<close>\<close>
  | DataBody bytes                        \<comment> \<open>the bytes handed to \<^verbatim>\<open>c.Data\<close>\<close>

text \<open>
  What a handler leaves behind: the status and the payload it handed to gin (\<^verbatim>\<open>c.Status\<close>,
  \<^verbatim>\<open>c.JSON\<close>, \<^verbatim>\<open>c.Data\<close>), the writer's header, and the upstream requests it dispatched,
  in order.
\<close>

record response =
  rsp_Status :: int
  rsp_Header :: header
  rsp_Body :: payload
  rsp_Dispatched :: "outbound_request list"

definition c_JSON :: "header \<Rightarrow> int \<Rightarrow> (string \<times> jvalue) list \<Rightarrow> outbound_request list \<Rightarrow> response" where
  "c_JSON w code obj sent =
     \<lparr>rsp_Status = code,
      rsp_Header = writeContentType w ''application/json; charset=utf-8'',
      rsp_Body = JSONBody obj, rsp_Dispatched = sent\<rparr>"

definition c_Data :: "header \<Rightarrow> int \<Rightarrow> string \<Rightarrow> bytes \<Rightarrow> outbound_request list \<Rightarrow> response" where
  "c_Data w code contentType data sent =
     \<lparr>rsp_Status = code, rsp_Header = writeContentType w contentType,
      rsp_Body = DataBody data, rsp_Dispatched = sent\<rparr>"

section \<open>The request headers (main.go, lines 141-161)\<close>

fun copy_request_headers :: "lib \<Rightarrow> header \<Rightarrow> header \<Rightarrow> header" where
  "copy_request_headers L [] h = h"
| "copy_request_headers L ((key, vals) # rest) h =
     (let keyLower = strings_ToLower L key
      in if keyLower = ''host'' \<or> keyLower = ''connection'' \<or> keyLower = ''keep-alive''
         then copy_request_headers L rest h
         else if keyLower = ''accept-encoding''
         then copy_request_headers L rest (header_Set h ''Accept-Encoding'' ''gzip, deflate'')
         else copy_request_headers L rest (foldl (\<lambda>h' v. header_Add h' key v) h vals))"

definition ensure_User_Agent :: "header \<Rightarrow> header" where
  "ensure_User_Agent h =
     (if header_Get h ''User-Agent'' = [] then header_Set h ''User-Agent'' ''Binance-Proxy/1.0''
      else h)"

definition outbound_header :: "lib \<Rightarrow> header \<Rightarrow> header" where
  \<comment> \<open>\<^verbatim>\<open>http.NewRequest\<close> starts from an empty header\<close>
  "outbound_header L inbound = ensure_User_Agent (copy_request_headers L inbound [])"

section \<open>The response (main.go, lines 191-280)\<close>

function decimal :: "nat \<Rightarrow> string" where
  \<comment> \<open>\<^verbatim>\<open>fmt.Sprintf("%d", n)\<close> for \<open>n \<ge> 0\<close>\<close>
  "decimal n =
     (if n < 10 then [char_of (48 + n)] else decimal (n div 10) @ [char_of (48 + n mod 10)])"
  by pat_completeness auto
termination
  by (relation "measure id") auto

declare decimal.simps [simp del]

definition bodyToSend :: "lib \<Rightarrow> string \<Rightarrow> bytes \<Rightarrow> bytes" where
  \<comment> \<open>lines 200-215\<close>
  "bodyToSend L contentEncoding body =
     (if contentEncoding = ''gzip''
      then (case gunzip L body of
              Decompressed decompressed \<Rightarrow> decompressed
            | ReadAllError \<Rightarrow> body
            | NewReaderError \<Rightarrow> body)
      else body)"

fun copy_response_headers :: "lib \<Rightarrow> string \<Rightarrow> header \<Rightarrow> header \<Rightarrow> header" where
  \<comment> \<open>lines 237-250\<close>
  "copy_response_headers L contentEncoding [] w = w"
| "copy_response_headers L contentEncoding ((key, vals) # rest) w =
     (let keyLower = strings_ToLower L key
      in if keyLower = ''content-encoding'' \<and> contentEncoding = ''gzip''
         then copy_response_headers L contentEncoding rest w
         else if keyLower = ''content-length'' \<and> contentEncoding = ''gzip''
         then copy_response_headers L contentEncoding rest w
         else copy_response_headers L contentEncoding rest
                (foldl (\<lambda>w' v. gin_Header w' key v) w vals))"

definition responseContentType :: "lib \<Rightarrow> header \<Rightarrow> bytes \<Rightarrow> string" where
  \<comment> \<open>lines 253-266\<close>
  "responseContentType L h body =
     (let ct = header_Get h ''Content-Type''
      in if ct = []
         then (if length body > 0
               then (if json_Valid L body then ''application/json''
                     else ''text/plain; charset=utf-8'')
               else ''application/json'')
         else ct)"

definition relay :: "lib \<Rightarrow> upstream_response \<Rightarrow> bytes \<Rightarrow> header \<Rightarrow> outbound_request list \<Rightarrow> response" where
  "relay L resp body w sent =
     (let contentEncoding = header_Get (resp_Header resp) ''Content-Encoding'';
          toSend = bodyToSend L contentEncoding body;
          w1 = copy_response_headers L contentEncoding (resp_Header resp) w;
          ct = responseContentType L (resp_Header resp) toSend;
          w2 = gin_Header w1 ''Content-Type'' ct;
          w3 = gin_Header w2 ''Access-Control-Allow-Origin'' ''*'';
          w4 = gin_Header w3 ''Access-Control-Allow-Methods'' ''GET, POST, PUT, DELETE, OPTIONS'';
          w5 = gin_Header w4 ''Access-Control-Allow-Headers'' ''Content-Type, Authorization'';
          w6 = (if contentEncoding = ''gzip'' \<or> header_Get w5 ''Content-Length'' = []
                then gin_Header w5 ''Content-Length'' (decimal (length toSend)) else w5)
      in c_Data w6 (resp_StatusCode resp) ct toSend sent)"

section \<open>The handler and the CORS middleware\<close>

definition cors_headers :: "header \<Rightarrow> header" where
  \<comment> \<open>the four \<^verbatim>\<open>c.Header\<close> calls of lines 63-66 and of lines 335-338\<close>
  "cors_headers w =
     gin_Header
       (gin_Header
          (gin_Header (gin_Header w ''Access-Control-Allow-Origin'' ''*'')
             ''Access-Control-Allow-Methods'' ''GET, POST, PUT, DELETE, OPTIONS'')
          ''Access-Control-Allow-Headers'' ''Content-Type, Authorization'')
       ''Access-Control-Max-Age'' ''3600''"

definition msg_criar :: "string \<Rightarrow> string" where
  \<comment> \<open>\<^verbatim>\<open>fmt.Sprintf("Erro ao criar requisi..o: %v", err)\<close>, the two accented letters in UTF-8\<close>
  "msg_criar err =
     ''Erro ao criar requisi'' @ [CHR 0xC3, CHR 0xA7, CHR 0xC3, CHR 0xA3] @ ''o: '' @ err"

definition targetURL :: "lib \<Rightarrow> ProxyServer \<Rightarrow> inbound_request \<Rightarrow> string" where
  \<comment> \<open>lines 72-119: base, normalized path and, for a non-empty map, the query string\<close>
  "targetURL L p r =
     target_base (binanceURL p) (req_Path r) @ query_suffix (convert_symbols L (req_Query r))"

definition outbound :: "lib \<Rightarrow> ProxyServer \<Rightarrow> inbound_request \<Rightarrow> outbound_request" where
  \<comment> \<open>the request of lines 131-161, once \<^verbatim>\<open>http.NewRequest\<close> has returned no error
      (it reads an empty method as \<^verbatim>\<open>GET\<close>)\<close>
  "outbound L p r =
     \<lparr>out_Method = (if req_Method r = [] then ''GET'' else req_Method r),
      out_URL = targetURL L p r,
      out_Header = outbound_header L (req_Header r), out_Body = req_Body r\<rparr>"

definition ProxyRequest :: "lib \<Rightarrow> ProxyServer \<Rightarrow> inbound_request \<Rightarrow> header \<Rightarrow> response" where
  \<comment> \<open>\<open>w\<close> is the writer's header when the handler is entered\<close>
  "ProxyRequest L p r w =
     (if req_Method r = ''OPTIONS''
      then \<lparr>rsp_Status = 200, rsp_Header = cors_headers w, rsp_Body = NoBody,
            rsp_Dispatched = []\<rparr>
      else
        (case http_NewRequest L (req_Method r) (targetURL L p r) of
           Some err \<Rightarrow>
             c_JSON w 500 [(''code'', JNumber (- 1000)), (''msg'', JString (msg_criar err)),
                           (''message'', JString (msg_criar err))] []
         | None \<Rightarrow>
             (let req = outbound L p r
              in (case client_Do p req of
                    Inl err \<Rightarrow>
                      c_JSON w 502
                        [(''code'', JNumber (- 1000)),
                         (''msg'', JString (''Erro ao conectar com Binance: '' @ err)),
                         (''message'', JString (''Erro ao conectar com Binance: '' @ err))]
                        [req]
                  | Inr resp \<Rightarrow>
                      (case resp_Body resp of
                         Inl err \<Rightarrow>
                           c_JSON w 500
                             [(''code'', JNumber (- 1001)),
                              (''msg'', JString ''Erro ao ler resposta da Binance''),
                              (''message'', JString (''Erro ao ler resposta: '' @ err))]
                             [req]
                       | Inr body \<Rightarrow> relay L resp body w [req])))))"

definition cors_middleware :: "inbound_request \<Rightarrow> (header \<Rightarrow> response) \<Rightarrow> header \<Rightarrow> response" where
  \<comment> \<open>lines 334-346; \<open>next\<close> is the rest of the handler chain, run by \<^verbatim>\<open>c.Next()\<close>\<close>
  "cors_middleware r next w =
     (let w' = cors_headers w
      in if req_Method r = ''OPTIONS''
         then \<lparr>rsp_Status = 200, rsp_Header = w', rsp_Body = NoBody, rsp_Dispatched = []\<rparr>
         else next w')"

definition serve_NoRoute :: "lib \<Rightarrow> ProxyServer \<Rightarrow> inbound_request \<Rightarrow> response" where
  \<comment> \<open>\<^verbatim>\<open>router.NoRoute(proxy.ProxyRequest)\<close> behind \<^verbatim>\<open>router.Use\<close>: a fresh writer\<close>
  "serve_NoRoute L p r = cors_middleware r (ProxyRequest L p r) []"

section \<open>encoding/json on a slice of strings\<close>

text \<open>
  What \<^verbatim>\<open>json.Marshal\<close> writes for a non-nil \<^verbatim>\<open>[]string\<close> (Go 1.22 and later, HTML
  escaping on): each string quoted by \<^verbatim>\<open>appendString\<close>, the quoted strings separated by
  commas, the whole in brackets. It returns no error on such a value.
\<close>

definition htmlSafe :: "char \<Rightarrow> bool" where
  \<comment> \<open>the table \<^verbatim>\<open>htmlSafeSet\<close>: the bytes from space to DEL but the double quote,
      the ampersand, the angle brackets and the backslash\<close>
  "htmlSafe c =
     (32 \<le> (of_char c :: nat) \<and> (of_char c :: nat) < 128
      \<and> c \<noteq> CHR 0x22 \<and> c \<noteq> CHR 0x26 \<and> c \<noteq> CHR 0x3C \<and> c \<noteq> CHR 0x3E \<and> c \<noteq> CHR 0x5C)"

definition lowerhex :: "nat \<Rightarrow> char" where
  "lowerhex n = ''0123456789abcdef'' ! (n mod 16)"

definition json_escape :: "char \<Rightarrow> string" where
  \<comment> \<open>the \<^verbatim>\<open>switch\<close> of \<^verbatim>\<open>appendString\<close> on an ASCII byte that is not safe\<close>
  "json_escape b =
     (if b = CHR 0x5C \<or> b = CHR 0x22 then [CHR 0x5C, b]
      else if b = CHR 0x08 then [CHR 0x5C, CHR ''b'']
      else if b = CHR 0x0C then [CHR 0x5C, CHR ''f'']
      else if b = CHR 0x0A then [CHR 0x5C, CHR ''n'']
      else if b = CHR 0x0D then [CHR 0x5C, CHR ''r'']
      else if b = CHR 0x09 then [CHR 0x5C, CHR ''t'']
      else [CHR 0x5C, CHR ''u'', CHR ''0'', CHR ''0'',
            lowerhex (of_char b div 16), lowerhex (of_char b mod 16)])"

definition inRange :: "nat \<Rightarrow> nat \<Rightarrow> char \<Rightarrow> bool" where
  "inRange lo hi c = (lo \<le> of_char c \<and> of_char c \<le> hi)"

fun utf8_size :: "string \<Rightarrow> nat option" where
  \<comment> \<open>\<^verbatim>\<open>utf8.DecodeRuneInString\<close> on a string that starts with a non-ASCII byte: the size
      of the encoding at its head, \<open>None\<close> for \<^verbatim>\<open>(RuneError, 1)\<close>\<close>
  "utf8_size [] = None"
| "utf8_size (b0 # rest) =
     (let x = (of_char b0 :: nat)
      in if 0xC2 \<le> x \<and> x \<le> 0xDF
         then (case rest of
                 b1 # _ \<Rightarrow> if inRange 0x80 0xBF b1 then Some 2 else None
               | _ \<Rightarrow> None)
         else if 0xE0 \<le> x \<and> x \<le> 0xEF
         then (case rest of
                 b1 # b2 # _ \<Rightarrow>
                   if inRange (if x = 0xE0 then 0xA0 else 0x80) (if x = 0xED then 0x9F else 0xBF) b1
                      \<and> inRange 0x80 0xBF b2
                   then Some 3 else None
               | _ \<Rightarrow> None)
         else if 0xF0 \<le> x \<and> x \<le> 0xF4
         then (case rest of
                 b1 # b2 # b3 # _ \<Rightarrow>
                   if inRange (if x = 0xF0 then 0x90 else 0x80) (if x = 0xF4 then 0x8F else 0xBF) b1
                      \<and> inRange 0x80 0xBF b2 \<and> inRange 0x80 0xBF b3
                   then Some 4 else None
               | _ \<Rightarrow> None)
         else None)"

fun json_string :: "string \<Rightarrow> string" where
  \<comment> \<open>the loop of \<^verbatim>\<open>appendString\<close>, between the two quotes\<close>
  "json_string [] = []"
| "json_string (b # bs) =
     (if isASCII b
      then (if htmlSafe b then b # json_string bs else json_escape b @ json_string bs)
      else (case utf8_size (b # bs) of
              None \<Rightarrow> CHR 0x5C # ''ufffd'' @ json_string bs
            | Some n \<Rightarrow>
                if take 3 (b # bs) = [CHR 0xE2, CHR 0x80, CHR 0xA8]
                then CHR 0x5C # ''u2028'' @ json_string (drop 2 bs)
                else if take 3 (b # bs) = [CHR 0xE2, CHR 0x80, CHR 0xA9]
                then CHR 0x5C # ''u2029'' @ json_string (drop 2 bs)
                else take n (b # bs) @ json_string (drop (n - 1) bs)))"

fun join :: "string \<Rightarrow> string list \<Rightarrow> string" where
  \<comment> \<open>the elements in order, the separator between each two\<close>
  "join sep [] = []"
| "join sep [x] = x"
| "join sep (x # y # ys) = x @ sep @ join sep (y # ys)"

definition quoted :: "string \<Rightarrow> string" where
  \<comment> \<open>between two double quotes\<close>
  "quoted s = CHR 0x22 # s @ [CHR 0x22]"

definition go_json_Marshal :: "string list \<Rightarrow> string + string" where
  "go_json_Marshal xs = Inr (''['' @ join '','' (map (\<lambda>s. quoted (json_string s)) xs) @ '']'')"

section \<open>A stub library and a stub upstream\<close>

text \<open>
  The closed instances below run the handler against these: Go's JSON encoder, identity
  functions for the Unicode fallbacks, a decompressor that strips the three bytes
  \<^verbatim>\<open>gz:\<close> and rejects every other body, and an upstream that answers from a fixed
  response or fails.
\<close>

definition stub_lib :: lib where
  "stub_lib =
     \<lparr>unicode_ToLower = (\<lambda>s. s), unicode_TrimFunc = (\<lambda>s. s), unicode_TrimRightFunc = (\<lambda>s. s),
      json_Marshal = go_json_Marshal, json_Valid = (\<lambda>b. False),
      gunzip = (\<lambda>b. if strings_HasPrefix b ''gz:'' then Decompressed (drop 3 b)
                     else NewReaderError),
      http_NewRequest = (\<lambda>m u. None)\<rparr>"

definition stub_server :: "string + upstream_response \<Rightarrow> ProxyServer" where
  "stub_server answer =
     \<lparr>binanceURL = ''https://api.binance.com/api/v3'', client_Do = (\<lambda>req. answer)\<rparr>"

definition stub_response :: "string list \<Rightarrow> bytes \<Rightarrow> upstream_response" where
  \<comment> \<open>status 200, the given \<^verbatim>\<open>Content-Encoding\<close> values, a body of eight bytes\<close>
  "stub_response encodings body =
     \<lparr>resp_StatusCode = 200,
      resp_Header = [(''Content-Encoding'', encodings), (''Content-Length'', [''8''])],
      resp_Body = Inr body\<rparr>"

definition get_request :: "string \<Rightarrow> url_Values \<Rightarrow> header \<Rightarrow> inbound_request" where
  "get_request path query hdr =
     \<lparr>req_Method = ''GET'', req_Path = path, req_Query = query, req_Header = hdr,
      req_Body = []\<rparr>"

section \<open>Predicates and readers used in the statements\<close>

definition canonical_keys :: "header \<Rightarrow> bool" where
  \<comment> \<open>what a Go \<^verbatim>\<open>http.Header\<close> filled by the transport is: a map, so each key stands once,
      and every key in the form \<^verbatim>\<open>textproto\<close> canonicalises it to\<close>
  "canonical_keys h =
     (distinct (map fst h) \<and> list_all (\<lambda>k. CanonicalMIMEHeaderKey k = k) (map fst h))"

definition atoi :: "string \<Rightarrow> nat" where
  \<comment> \<open>the number a string of decimal digits writes, to read \<^const>\<open>decimal\<close> back\<close>
  "atoi s = foldl (\<lambda>a c. 10 * a + (of_char c - 48)) 0 s"

definition hop_free :: "header \<Rightarrow> bool" where
  \<comment> \<open>no key is \<^verbatim>\<open>host\<close>, \<^verbatim>\<open>connection\<close> or \<^verbatim>\<open>keep-alive\<close>, in whatever letter case\<close>
  "hop_free h =
     list_all (\<lambda>K. map asciiLower K \<noteq> ''host'' \<and> map asciiLower K \<noteq> ''connection''
                  \<and> map asciiLower K \<noteq> ''keep-alive'') (map fst h)"

section \<open>Facts about the string functions\<close>

lemma HasPrefix_iff_prefix: "strings_HasPrefix s pre \<longleftrightarrow> prefix pre s"
  by (auto simp: strings_HasPrefix_def prefix_def take_is_prefix
      dest: arg_cong [where f = length]) (metis append_eq_conv_conj)

lemma HasPrefix_slash: "strings_HasPrefix s ''/'' \<longleftrightarrow> (\<exists>t. s = CHR ''/'' # t)"
  by (cases s) (auto simp: strings_HasPrefix_def)

section \<open>Facts about headers\<close>

lemma canon_consts:
  "CanonicalMIMEHeaderKey ''Content-Encoding'' = ''Content-Encoding''"
  "CanonicalMIMEHeaderKey ''Content-Length'' = ''Content-Length''"
  "CanonicalMIMEHeaderKey ''Content-Type'' = ''Content-Type''"
  "CanonicalMIMEHeaderKey ''Access-Control-Allow-Origin'' = ''Access-Control-Allow-Origin''"
  "CanonicalMIMEHeaderKey ''Access-Control-Allow-Methods'' = ''Access-Control-Allow-Methods''"
  "CanonicalMIMEHeaderKey ''Access-Control-Allow-Headers'' = ''Access-Control-Allow-Headers''"
  "CanonicalMIMEHeaderKey ''Access-Control-Max-Age'' = ''Access-Control-Max-Age''"
  "CanonicalMIMEHeaderKey ''Accept-Encoding'' = ''Accept-Encoding''"
  "CanonicalMIMEHeaderKey ''User-Agent'' = ''User-Agent''"
  by code_simp+

lemma map_of_header_Set:
  "map_of (header_Set h key v) = (map_of h)(CanonicalMIMEHeaderKey key \<mapsto> [v])"
  by (simp add: header_Set_def update_conv')

lemma map_of_header_Del:
  "map_of (header_Del h key) = (map_of h)(CanonicalMIMEHeaderKey key := None)"
  by (simp add: header_Del_def delete_conv')

lemma map_of_header_Add:
  "map_of (header_Add h key v) =
     (map_of h)(CanonicalMIMEHeaderKey key \<mapsto> header_values h (CanonicalMIMEHeaderKey key) @ [v])"
  by (simp add: header_Add_def Let_def update_conv')

lemma map_of_gin_Header:
  "map_of (gin_Header w key v) =
     (if v = [] then (map_of w)(CanonicalMIMEHeaderKey key := None)
      else (map_of w)(CanonicalMIMEHeaderKey key \<mapsto> [v]))"
  by (simp add: gin_Header_def map_of_header_Set map_of_header_Del)

lemma isUpper_ASCII: "isUpper c \<Longrightarrow> isASCII c"
  by (cases c) (auto simp: isUpper_def isASCII_def)

lemma valid_ASCII: "validHeaderFieldByte c \<Longrightarrow> isASCII c"
  by (cases c) (auto simp: validHeaderFieldByte_def isUpper_def isLower_def isDigit_def isASCII_def)

section \<open>Facts about the handler\<close>

lemma normalize_path_slash: "prefix ''/'' (normalize_path p)"
  by (auto simp: normalize_path_def Let_def HasPrefix_iff_prefix)

lemma normalize_path_api:
  "normalize_path (''/api'' @ t) = (if prefix ''/'' t then t else ''/'' @ t)"
  by (simp add: normalize_path_def Let_def HasPrefix_iff_prefix strings_TrimPrefix_def)

lemma normalize_path_other:
  "\<not> prefix ''/api'' p \<Longrightarrow> normalize_path p = (if prefix ''/'' p then p else ''/'' @ p)"
  by (simp add: normalize_path_def Let_def HasPrefix_iff_prefix strings_TrimPrefix_def)

lemma ProxyRequest_OPTIONS:
  "req_Method r = ''OPTIONS'' \<Longrightarrow>
   ProxyRequest L p r w =
     \<lparr>rsp_Status = 200, rsp_Header = cors_headers w, rsp_Body = NoBody, rsp_Dispatched = []\<rparr>"
  by (simp add: ProxyRequest_def)

lemma ProxyRequest_dispatched:
  "rsp_Dispatched (ProxyRequest L p r w) =
     (if req_Method r = ''OPTIONS'' then []
      else case http_NewRequest L (req_Method r) (targetURL L p r) of
             Some err \<Rightarrow> [] | None \<Rightarrow> [outbound L p r])"
  by (simp add: ProxyRequest_def c_JSON_def relay_def c_Data_def Let_def
      split: option.splits sum.splits)

lemma map_of_cors_headers:
  "map_of (cors_headers w) =
     (map_of w)(''Access-Control-Allow-Origin'' \<mapsto> [''*''],
                ''Access-Control-Allow-Methods'' \<mapsto> [''GET, POST, PUT, DELETE, OPTIONS''],
                ''Access-Control-Allow-Headers'' \<mapsto> [''Content-Type, Authorization''],
                ''Access-Control-Max-Age'' \<mapsto> [''3600''])"
  by (simp add: cors_headers_def map_of_gin_Header canon_consts)

section \<open>Facts about letter case and canonical keys\<close>

lemma isUpper_nat: "isUpper c \<longleftrightarrow> 65 \<le> (of_char c :: nat) \<and> (of_char c :: nat) \<le> 90"
  by (simp add: isUpper_def less_eq_char_def)

lemma isLower_nat: "isLower c \<longleftrightarrow> 97 \<le> (of_char c :: nat) \<and> (of_char c :: nat) \<le> 122"
  by (simp add: isLower_def less_eq_char_def)

lemma isDigit_nat: "isDigit c \<longleftrightarrow> 48 \<le> (of_char c :: nat) \<and> (of_char c :: nat) \<le> 57"
  by (simp add: isDigit_def less_eq_char_def)

lemma asciiLower_idem: "asciiLower (asciiLower c) = asciiLower c"
  by (auto simp: asciiLower_def isUpper_nat)

lemma asciiLower_asciiUpper: "asciiLower (asciiUpper c) = asciiLower c"
proof (cases "isLower c")
  case True
  then have b: "97 \<le> (of_char c :: nat)" "(of_char c :: nat) \<le> 122"
    by (simp_all add: isLower_nat)
  then have m: "((of_char c :: nat) - 32) mod 256 = of_char c - 32" by simp
  have up: "isUpper (char_of ((of_char c :: nat) - 32))"
    unfolding isUpper_nat of_char_of m using b by arith
  have "\<not> isUpper c" using b by (simp add: isUpper_nat)
  moreover have "char_of ((of_char c :: nat) - 32 + 32) = c"
    using b by simp
  ultimately show ?thesis
    using True up by (simp add: asciiLower_def asciiUpper_def m)
next
  case False
  then show ?thesis by (simp add: asciiUpper_def)
qed

lemma asciiLower_not_upper: "\<not> isUpper c \<Longrightarrow> asciiLower c = c"
  by (simp add: asciiLower_def)

lemma canonical_lower:
  "map asciiLower (canonicalMIMEHeaderKey u k) = map asciiLower k"
  by (induction k arbitrary: u)
     (simp_all add: Let_def asciiLower_idem asciiLower_asciiUpper)

lemma map_asciiLower_id: "\<not> list_ex isUpper s \<Longrightarrow> map asciiLower s = s"
  by (induction s) (simp_all add: asciiLower_not_upper)

lemma ToLower_ASCII: "list_all isASCII s \<Longrightarrow> strings_ToLower L s = map asciiLower s"
  by (simp add: strings_ToLower_def map_asciiLower_id)

lemma list_all_valid_ASCII: "list_all validHeaderFieldByte s \<Longrightarrow> list_all isASCII s"
  by (induction s) (simp_all add: valid_ASCII)

lemma ToLower_of_canonical:
  assumes "list_all validHeaderFieldByte K" and "CanonicalMIMEHeaderKey k = K"
  shows "strings_ToLower L k = map asciiLower K"
proof (cases "list_all validHeaderFieldByte k")
  case True
  then have "K = canonicalMIMEHeaderKey True k"
    using assms(2) by (simp add: CanonicalMIMEHeaderKey_def)
  then show ?thesis
    using True by (simp add: canonical_lower ToLower_ASCII list_all_valid_ASCII)
next
  case False
  then have "k = K" using assms(2) by (simp add: CanonicalMIMEHeaderKey_def)
  then show ?thesis using False assms(1) by simp
qed

lemma valid_consts:
  "list_all validHeaderFieldByte ''Content-Encoding''"
  "list_all validHeaderFieldByte ''Content-Length''"
  "list_all validHeaderFieldByte ''Host''"
  "list_all validHeaderFieldByte ''Connection''"
  "list_all validHeaderFieldByte ''Keep-Alive''"
  "list_all validHeaderFieldByte ''Accept-Encoding''"
  by code_simp+

lemma lower_consts:
  "map asciiLower ''Content-Encoding'' = ''content-encoding''"
  "map asciiLower ''Content-Length'' = ''content-length''"
  "map asciiLower ''Host'' = ''host''"
  "map asciiLower ''Connection'' = ''connection''"
  "map asciiLower ''Keep-Alive'' = ''keep-alive''"
  "map asciiLower ''Accept-Encoding'' = ''accept-encoding''"
  by code_simp+

section \<open>Facts about the relayed response\<close>

lemma foldl_gin_Header_other:
  "CanonicalMIMEHeaderKey k \<noteq> K \<Longrightarrow>
   map_of (foldl (\<lambda>w' v. gin_Header w' k v) w vs) K = map_of w K"
  by (induction vs arbitrary: w) (simp_all add: map_of_gin_Header)

lemma foldl_gin_Header_same:
  "vs \<noteq> [] \<Longrightarrow>
   map_of (foldl (\<lambda>w' v. gin_Header w' k v) w vs) (CanonicalMIMEHeaderKey k) =
     (if last vs = [] then None else Some [last vs])"
  by (induction vs arbitrary: w) (auto simp: map_of_gin_Header)

lemma copy_response_headers_gzip:
  assumes "list_all validHeaderFieldByte K"
    and "map asciiLower K = ''content-encoding'' \<or> map asciiLower K = ''content-length''"
  shows "map_of (copy_response_headers L ''gzip'' h w) K = map_of w K"
proof (induction h arbitrary: w)
  case Nil
  show ?case by simp
next
  case (Cons kv h)
  obtain k vs where kv: "kv = (k, vs)" by (cases kv)
  show ?case
  proof (cases "CanonicalMIMEHeaderKey k = K")
    case True
    then have "strings_ToLower L k = map asciiLower K"
      using assms(1) by (rule ToLower_of_canonical [rotated])
    then show ?thesis using assms(2) kv Cons.IH by (auto simp: Let_def)
  next
    case False
    then show ?thesis
      using kv Cons.IH by (simp add: Let_def foldl_gin_Header_other)
  qed
qed

lemma decimal_nonempty: "decimal n \<noteq> []"
  by (subst decimal.simps) simp

lemma atoi_snoc: "atoi (s @ [c]) = 10 * atoi s + (of_char c - 48)"
  by (simp add: atoi_def)

lemma atoi_decimal: "atoi (decimal n) = n"
proof (induction n rule: decimal.induct)
  case (1 n)
  show ?case
  proof (cases "n < 10")
    case True
    then show ?thesis by (subst decimal.simps) (simp add: atoi_def)
  next
    case False
    then have "atoi (decimal (n div 10)) = n div 10" using "1.IH" by simp
    moreover have "(of_char (char_of (48 + n mod 10) :: char) :: nat) = 48 + n mod 10"
    proof -
      have "n mod 10 < 10" by simp
      then have "48 + n mod 10 < 256" by arith
      then show ?thesis by simp
    qed
    ultimately show ?thesis
      using False by (subst decimal.simps) (simp add: atoi_snoc)
  qed
qed

lemma header_Get_cong:
  "map_of h (CanonicalMIMEHeaderKey K) = map_of h' (CanonicalMIMEHeaderKey K) \<Longrightarrow>
   header_Get h K = header_Get h' K"
  by (simp add: header_Get_def header_values_def)

lemma map_of_writeContentType:
  "K \<noteq> ''Content-Type'' \<Longrightarrow> map_of (writeContentType w ct) K = map_of w K"
  by (simp add: writeContentType_def update_conv')

lemma relay_body:
  "rsp_Body (relay L resp body w sent) =
     DataBody (bodyToSend L (header_Get (resp_Header resp) ''Content-Encoding'') body)"
  by (simp add: relay_def c_Data_def Let_def)

lemma relay_status: "rsp_Status (relay L resp body w sent) = resp_StatusCode resp"
  by (simp add: relay_def c_Data_def Let_def)

lemma relay_dispatched: "rsp_Dispatched (relay L resp body w sent) = sent"
  by (simp add: relay_def c_Data_def Let_def)

lemma relay_header_other:
  assumes "K \<noteq> ''Content-Type''" "K \<noteq> ''Access-Control-Allow-Origin''"
    "K \<noteq> ''Access-Control-Allow-Methods''" "K \<noteq> ''Access-Control-Allow-Headers''"
    "K \<noteq> ''Content-Length''"
  shows "map_of (rsp_Header (relay L resp body w sent)) K =
         map_of (copy_response_headers L (header_Get (resp_Header resp) ''Content-Encoding'')
                   (resp_Header resp) w) K"
  using assms
  by (simp add: relay_def c_Data_def Let_def map_of_writeContentType map_of_gin_Header
      canon_consts)

lemma responseContentType_nonempty: "responseContentType L h body \<noteq> []"
  by (auto simp: responseContentType_def Let_def)

lemma relay_Content_Length:
  "map_of (rsp_Header (relay L resp body w sent)) ''Content-Length'' =
     (let ce = header_Get (resp_Header resp) ''Content-Encoding'';
          w1 = copy_response_headers L ce (resp_Header resp) w
      in if ce = ''gzip'' \<or> header_Get w1 ''Content-Length'' = []
         then Some [decimal (length (bodyToSend L ce body))]
         else map_of w1 ''Content-Length'')"
proof -
  define ce where "ce = header_Get (resp_Header resp) ''Content-Encoding''"
  define w1 where "w1 = copy_response_headers L ce (resp_Header resp) w"
  define ct where "ct = responseContentType L (resp_Header resp) (bodyToSend L ce body)"
  define w5 where "w5 =
    gin_Header (gin_Header (gin_Header (gin_Header w1 ''Content-Type'' ct)
      ''Access-Control-Allow-Origin'' ''*'')
      ''Access-Control-Allow-Methods'' ''GET, POST, PUT, DELETE, OPTIONS'')
      ''Access-Control-Allow-Headers'' ''Content-Type, Authorization''"
  have ct: "ct \<noteq> []" by (simp add: ct_def responseContentType_nonempty)
  have w5: "map_of w5 ''Content-Length'' = map_of w1 ''Content-Length''"
    using ct by (simp add: w5_def map_of_gin_Header canon_consts)
  then have get: "header_Get w5 ''Content-Length'' = header_Get w1 ''Content-Length''"
    by (intro header_Get_cong) (simp add: canon_consts)
  have "rsp_Header (relay L resp body w sent) =
          writeContentType
            (if ce = ''gzip'' \<or> header_Get w5 ''Content-Length'' = []
             then gin_Header w5 ''Content-Length'' (decimal (length (bodyToSend L ce body)))
             else w5) ct"
    by (simp add: relay_def c_Data_def Let_def ce_def w1_def ct_def w5_def)
  then show ?thesis
    using w5 get
    by (simp add: map_of_writeContentType map_of_gin_Header canon_consts decimal_nonempty
        Let_def ce_def [symmetric] w1_def [symmetric])
qed

lemma serve_NoRoute_relay:
  assumes "req_Method r \<noteq> ''OPTIONS''"
    and "http_NewRequest L (req_Method r) (targetURL L p r) = None"
    and "client_Do p (outbound L p r) = Inr resp"
    and "resp_Body resp = Inr body"
  shows "serve_NoRoute L p r = relay L resp body (cors_headers []) [outbound L p r]"
  using assms by (simp add: serve_NoRoute_def cors_middleware_def ProxyRequest_def Let_def)

lemma cors_headers_other:
  "K \<noteq> ''Access-Control-Allow-Origin'' \<Longrightarrow> K \<noteq> ''Access-Control-Allow-Methods'' \<Longrightarrow>
   K \<noteq> ''Access-Control-Allow-Headers'' \<Longrightarrow> K \<noteq> ''Access-Control-Max-Age'' \<Longrightarrow>
   map_of (cors_headers w) K = map_of w K"
  by (simp add: map_of_cors_headers)

lemma gzip_fallback:
  assumes "req_Method r \<noteq> ''OPTIONS''"
    and "http_NewRequest L (req_Method r) (targetURL L p r) = None"
    and "client_Do p (outbound L p r) = Inr resp"
    and "resp_Body resp = Inr body"
    and "header_Get (resp_Header resp) ''Content-Encoding'' = ''gzip''"
    and "gunzip L body = NewReaderError \<or> gunzip L body = ReadAllError"
  shows "rsp_Body (serve_NoRoute L p r) = DataBody body
         \<and> rsp_Status (serve_NoRoute L p r) = resp_StatusCode resp
         \<and> map_of (rsp_Header (serve_NoRoute L p r)) ''Content-Encoding'' = None
         \<and> map_of (rsp_Header (serve_NoRoute L p r)) ''Content-Length''
             = Some [decimal (length body)]"
proof -
  have s: "serve_NoRoute L p r = relay L resp body (cors_headers []) [outbound L p r]"
    using assms(1-4) by (rule serve_NoRoute_relay)
  have b: "bodyToSend L ''gzip'' body = body"
    using assms(6) by (auto simp: bodyToSend_def)
  have "map_of (rsp_Header (relay L resp body (cors_headers []) [outbound L p r]))
          ''Content-Encoding''
        = map_of (copy_response_headers L ''gzip'' (resp_Header resp) (cors_headers []))
            ''Content-Encoding''"
    using assms(5) by (simp add: relay_header_other)
  also have "\<dots> = map_of (cors_headers []) ''Content-Encoding''"
    by (rule copy_response_headers_gzip [OF valid_consts(1)]) (simp only: lower_consts simp_thms)
  also have "\<dots> = None" by (simp add: cors_headers_other)
  finally have ce: "map_of (rsp_Header (serve_NoRoute L p r)) ''Content-Encoding'' = None"
    by (simp add: s)
  show ?thesis
    using ce assms(5) b by (simp add: s relay_body relay_status relay_Content_Length)
qed

lemma copy_response_headers_untouched:
  "list_all (\<lambda>k. CanonicalMIMEHeaderKey k \<noteq> K) (map fst h) \<Longrightarrow>
   map_of (copy_response_headers L ce h w) K = map_of w K"
  by (induction h arbitrary: w) (auto simp: Let_def foldl_gin_Header_other)

lemma canonical_keys_Cons:
  "canonical_keys ((k, vs) # h) \<longleftrightarrow>
     k \<notin> fst ` set h \<and> CanonicalMIMEHeaderKey k = k \<and> canonical_keys h"
  by (auto simp: canonical_keys_def)

lemma canonical_keys_others:
  "canonical_keys h \<Longrightarrow> K \<notin> fst ` set h \<Longrightarrow>
   list_all (\<lambda>k. CanonicalMIMEHeaderKey k \<noteq> K) (map fst h)"
  by (induction h) (auto simp: canonical_keys_Cons)

lemma copy_response_headers_plain:
  assumes "ce \<noteq> ''gzip''" and "canonical_keys h" and "map_of h K = Some vs" and "vs \<noteq> []"
  shows "map_of (copy_response_headers L ce h w) K =
           (if last vs = [] then None else Some [last vs])"
  using assms(2,3)
proof (induction h arbitrary: w)
  case Nil
  then show ?case by simp
next
  case (Cons kv h)
  obtain k us where kv: "kv = (k, us)" by (cases kv)
  from Cons.prems(1) kv have k: "k \<notin> fst ` set h" "CanonicalMIMEHeaderKey k = k"
    and h: "canonical_keys h"
    by (simp_all add: canonical_keys_Cons)
  let ?w = "foldl (\<lambda>w' v. gin_Header w' k v) w us"
  have step: "copy_response_headers L ce (kv # h) w = copy_response_headers L ce h ?w"
    using assms(1) kv by (simp add: Let_def)
  show ?case
  proof (cases "k = K")
    case True
    then have "us = vs" using Cons.prems(2) kv by simp
    then have "map_of ?w K = (if last vs = [] then None else Some [last vs])"
      using foldl_gin_Header_same [of us k w] assms(4) k(2) True by simp
    moreover have "map_of (copy_response_headers L ce h ?w) K = map_of ?w K"
      using h k(1) True
      by (intro copy_response_headers_untouched canonical_keys_others) simp_all
    ultimately show ?thesis by (simp add: step)
  next
    case False
    then have "map_of h K = Some vs" using Cons.prems(2) kv by simp
    then show ?thesis using Cons.IH [OF h] by (simp add: step)
  qed
qed

lemma ToLower_gunzip [simp]: "strings_ToLower (L\<lparr>gunzip := g\<rparr>) s = strings_ToLower L s"
  by (simp add: strings_ToLower_def)

lemma TrimSpace_stop_gunzip [simp]: "TrimSpace_stop (L\<lparr>gunzip := g\<rparr>) s = TrimSpace_stop L s"
  by (induction s) simp_all

lemma TrimSpace_gunzip [simp]: "strings_TrimSpace (L\<lparr>gunzip := g\<rparr>) s = strings_TrimSpace L s"
  by (induction s) simp_all

lemma TrimSpace_gunzip_fun [simp]: "strings_TrimSpace (L\<lparr>gunzip := g\<rparr>) = strings_TrimSpace L"
  by (rule ext) simp

lemma convert_symbols_gunzip [simp]: "convert_symbols (L\<lparr>gunzip := g\<rparr>) q = convert_symbols L q"
  by (simp add: convert_symbols_def Let_def split: option.splits list.splits sum.splits)

lemma copy_request_headers_gunzip [simp]:
  "copy_request_headers (L\<lparr>gunzip := g\<rparr>) h out = copy_request_headers L h out"
  by (induction h arbitrary: out) (auto simp: Let_def)

lemma copy_response_headers_gunzip [simp]:
  "copy_response_headers (L\<lparr>gunzip := g\<rparr>) ce h w = copy_response_headers L ce h w"
  by (induction h arbitrary: w) (auto simp: Let_def)

lemma outbound_gunzip [simp]:
  "targetURL (L\<lparr>gunzip := g\<rparr>) p r = targetURL L p r"
  "outbound (L\<lparr>gunzip := g\<rparr>) p r = outbound L p r"
  by (simp_all add: targetURL_def outbound_def outbound_header_def)

lemma bodyToSend_plain: "ce \<noteq> ''gzip'' \<Longrightarrow> bodyToSend L ce body = body"
  by (simp add: bodyToSend_def)

lemma responseContentType_gunzip [simp]:
  "responseContentType (L\<lparr>gunzip := g\<rparr>) h b = responseContentType L h b"
  by (simp add: responseContentType_def)

lemma relay_gunzip:
  "header_Get (resp_Header resp) ''Content-Encoding'' \<noteq> ''gzip'' \<Longrightarrow>
   relay (L\<lparr>gunzip := g\<rparr>) resp body w sent = relay L resp body w sent"
  by (simp add: relay_def bodyToSend_plain)

section \<open>Facts about the symbols conversion and the query string\<close>



lemma join_Cons_nonempty: "xs \<noteq> [] \<Longrightarrow> join [sep] ((c # x) # xs) = c # join [sep] (x # xs)"
  by (cases xs) simp_all



lemma dropWhile_ASCII: "list_all isASCII s \<Longrightarrow> list_all isASCII (dropWhile P s)"
  by (induction s) auto



lemma convert_symbols_other: "k \<noteq> ''symbols'' \<Longrightarrow> map_of (convert_symbols L q) k = map_of q k"
  by (simp add: convert_symbols_def values_Set_def update_conv' Let_def
      split: option.splits list.splits sum.splits)

lemma convert_symbols_array:
  "map_of q ''symbols'' = Some (v # vs) \<Longrightarrow> prefix ''['' v \<Longrightarrow> convert_symbols L q = q"
  by (simp add: convert_symbols_def HasPrefix_iff_prefix)

lemma convert_symbols_list:
  assumes "map_of q ''symbols'' = Some (v # vs)" and "\<not> prefix ''['' v"
  shows "convert_symbols L q =
           (case json_Marshal L (map (strings_TrimSpace L) (strings_Split v CHR '','')) of
              Inr j \<Rightarrow> values_Set q ''symbols'' j | Inl e \<Rightarrow> q)"
  using assms by (simp add: convert_symbols_def HasPrefix_iff_prefix)

lemma join_eq_Nil: "list_all (\<lambda>x. x \<noteq> []) xs \<Longrightarrow> join sep xs = [] \<longleftrightarrow> xs = []"
  by (induction sep xs rule: join.induct) auto

lemma join_snoc:
  "join sep (xs @ [y]) = (if xs = [] then y else join sep xs @ sep @ y)"
  by (induction sep xs rule: join.induct) auto

lemma Encode_value_join:
  assumes "list_all (\<lambda>x. x \<noteq> []) items"
  shows "Encode_value ke (join ''&'' items) v = join ''&'' (items @ [ke @ ''='' @ QueryEscape v])"
  using join_eq_Nil [OF assms, of "''&''"] by (simp add: Encode_value_def join_snoc)

lemma foldl_Encode_value:
  "list_all (\<lambda>x. x \<noteq> []) items \<Longrightarrow>
   foldl (Encode_value ke) (join ''&'' items) vs
     = join ''&'' (items @ map (\<lambda>v. ke @ ''='' @ QueryEscape v) vs)"
proof (induction vs arbitrary: items)
  case Nil
  show ?case by simp
next
  case (Cons v vs)
  have "list_all (\<lambda>x. x \<noteq> []) (items @ [ke @ ''='' @ QueryEscape v])"
    using Cons.prems by simp
  from Cons.IH [OF this] show ?case
    using Cons.prems by (simp add: Encode_value_join)
qed

lemma foldl_Encode_keys:
  "list_all (\<lambda>x. x \<noteq> []) items \<Longrightarrow>
   foldl (\<lambda>buf k. foldl (Encode_value (QueryEscape k)) buf (values_lookup q k))
       (join ''&'' items) ks
     = join ''&'' (items @ concat (map (\<lambda>k. map (\<lambda>v. QueryEscape k @ ''='' @ QueryEscape v)
                                           (values_lookup q k)) ks))"
proof (induction ks arbitrary: items)
  case Nil
  show ?case by simp
next
  case (Cons k ks)
  let ?new = "map (\<lambda>v. QueryEscape k @ ''='' @ QueryEscape v) (values_lookup q k)"
  have "list_all (\<lambda>x. x \<noteq> []) (items @ ?new)"
    using Cons.prems by (auto simp: list_all_iff)
  from Cons.IH [OF this] show ?case
    using Cons.prems by (simp add: foldl_Encode_value)
qed

lemma values_Encode_join:
  "values_Encode q =
     join ''&'' (concat (map (\<lambda>k. map (\<lambda>v. QueryEscape k @ ''='' @ QueryEscape v)
                                  (values_lookup q k)) (values_keys q)))"
proof (cases "q = []")
  case True
  then show ?thesis by (simp add: values_Encode_def values_keys_def)
next
  case False
  then show ?thesis
    using foldl_Encode_keys [of "[]" q "values_keys q"] by (simp add: values_Encode_def)
qed

lemma convert_symbols_empty: "convert_symbols L q = [] \<longleftrightarrow> q = []"
  by (auto simp: convert_symbols_def values_Set_def Let_def
      split: option.splits list.splits sum.splits)

section \<open>Facts about the outbound header\<close>

lemma valid_of_asciiLower: "validHeaderFieldByte (asciiLower c) \<Longrightarrow> validHeaderFieldByte c"
  by (cases "isUpper c") (simp_all add: validHeaderFieldByte_def asciiLower_def)

lemma valid_of_map_asciiLower:
  "list_all validHeaderFieldByte (map asciiLower k) \<Longrightarrow> list_all validHeaderFieldByte k"
  by (induction k) (auto dest: valid_of_asciiLower)

lemma ToLower_of_lower_canonical:
  assumes "list_all validHeaderFieldByte K"
    and "map asciiLower (CanonicalMIMEHeaderKey key) = K"
  shows "strings_ToLower L key = K"
proof (cases "list_all validHeaderFieldByte key")
  case True
  then have "map asciiLower key = K"
    using assms(2) by (simp add: CanonicalMIMEHeaderKey_def canonical_lower)
  then show ?thesis
    using True by (simp add: ToLower_ASCII list_all_valid_ASCII)
next
  case False
  then have "map asciiLower key = K"
    using assms(2) by (simp add: CanonicalMIMEHeaderKey_def)
  with assms(1) have "list_all validHeaderFieldByte (map asciiLower key)"
    by (simp only:)
  then have "list_all validHeaderFieldByte key"
    by (rule valid_of_map_asciiLower)
  then show ?thesis using False by simp
qed

lemma valid_lower_consts:
  "list_all validHeaderFieldByte ''host''"
  "list_all validHeaderFieldByte ''connection''"
  "list_all validHeaderFieldByte ''keep-alive''"
  "list_all validHeaderFieldByte ''accept-encoding''"
  by code_simp+

lemma hop_free_update:
  "hop_free h \<Longrightarrow> map asciiLower K \<noteq> ''host'' \<Longrightarrow> map asciiLower K \<noteq> ''connection'' \<Longrightarrow>
   map asciiLower K \<noteq> ''keep-alive'' \<Longrightarrow> hop_free (AList.update K v h)"
  by (auto simp: hop_free_def update_keys list_all_iff)

lemma hop_free_Add:
  assumes "hop_free h" and "strings_ToLower L key \<noteq> ''host''"
    and "strings_ToLower L key \<noteq> ''connection''" and "strings_ToLower L key \<noteq> ''keep-alive''"
  shows "hop_free (header_Add h key v)"
proof -
  have "map asciiLower (CanonicalMIMEHeaderKey key) \<noteq> ''host''"
    using assms(2) ToLower_of_lower_canonical [OF valid_lower_consts(1), of key L] by auto
  moreover have "map asciiLower (CanonicalMIMEHeaderKey key) \<noteq> ''connection''"
    using assms(3) ToLower_of_lower_canonical [OF valid_lower_consts(2), of key L] by auto
  moreover have "map asciiLower (CanonicalMIMEHeaderKey key) \<noteq> ''keep-alive''"
    using assms(4) ToLower_of_lower_canonical [OF valid_lower_consts(3), of key L] by auto
  ultimately show ?thesis
    using assms(1) by (simp add: header_Add_def Let_def hop_free_update)
qed

lemma hop_free_foldl_Add:
  "hop_free h \<Longrightarrow> strings_ToLower L key \<noteq> ''host'' \<Longrightarrow>
   strings_ToLower L key \<noteq> ''connection'' \<Longrightarrow> strings_ToLower L key \<noteq> ''keep-alive'' \<Longrightarrow>
   hop_free (foldl (\<lambda>h' v. header_Add h' key v) h vals)"
  by (induction vals arbitrary: h) (simp_all add: hop_free_Add)

lemma hop_free_copy:
  "hop_free h \<Longrightarrow> hop_free (copy_request_headers L inbound h)"
proof (induction inbound arbitrary: h)
  case Nil
  then show ?case by simp
next
  case (Cons kv inbound)
  obtain key vals where kv: "kv = (key, vals)" by (cases kv)
  have ae: "hop_free (header_Set h ''Accept-Encoding'' ''gzip, deflate'')"
    using Cons.prems
    by (simp add: header_Set_def canon_consts hop_free_update lower_consts)
  have add: "hop_free (foldl (\<lambda>h' v. header_Add h' key v) h vals)"
    if "strings_ToLower L key \<noteq> ''host''" "strings_ToLower L key \<noteq> ''connection''"
      "strings_ToLower L key \<noteq> ''keep-alive''"
    using Cons.prems that by (rule hop_free_foldl_Add)
  show ?case
    unfolding kv copy_request_headers.simps Let_def
    using Cons.IH [OF Cons.prems] Cons.IH [OF ae] Cons.IH [OF add]
    by (simp only: split: if_splits) blast
qed

lemma hop_free_outbound_header: "hop_free (outbound_header L inbound)"
proof -
  have "hop_free (copy_request_headers L inbound [])"
    by (rule hop_free_copy) (simp add: hop_free_def)
  then show ?thesis
    by (simp add: outbound_header_def ensure_User_Agent_def header_Set_def canon_consts
        hop_free_update)
qed

lemma isASCII_of_asciiLower: "isASCII (asciiLower c) \<Longrightarrow> isASCII c"
  by (cases "isUpper c") (simp_all add: asciiLower_def isUpper_ASCII)

lemma ASCII_of_map_asciiLower: "list_all isASCII (map asciiLower k) \<Longrightarrow> list_all isASCII k"
  by (induction k) (auto dest: isASCII_of_asciiLower)

lemma ToLower_of_lower:
  assumes "list_all isASCII K" and "map asciiLower k = K"
  shows "strings_ToLower L k = K"
proof -
  from assms have "list_all isASCII (map asciiLower k)" by (simp only:)
  then have "list_all isASCII k" by (rule ASCII_of_map_asciiLower)
  then show ?thesis using assms(2) by (simp add: ToLower_ASCII)
qed

lemma foldl_header_Add_other:
  "CanonicalMIMEHeaderKey key \<noteq> K \<Longrightarrow>
   map_of (foldl (\<lambda>h' v. header_Add h' key v) h vals) K = map_of h K"
  by (induction vals arbitrary: h) (simp_all add: map_of_header_Add)

lemma copy_request_headers_AE_kept:
  "map_of h ''Accept-Encoding'' = Some [''gzip, deflate''] \<Longrightarrow>
   map_of (copy_request_headers L inbound h) ''Accept-Encoding'' = Some [''gzip, deflate'']"
proof (induction inbound arbitrary: h)
  case Nil
  then show ?case by simp
next
  case (Cons kv inbound)
  obtain key vals where kv: "kv = (key, vals)" by (cases kv)
  have set: "map_of (header_Set h ''Accept-Encoding'' ''gzip, deflate'') ''Accept-Encoding''
               = Some [''gzip, deflate'']"
    by (simp add: map_of_header_Set canon_consts)
  have add: "map_of (foldl (\<lambda>h' v. header_Add h' key v) h vals) ''Accept-Encoding''
               = Some [''gzip, deflate'']"
    if "strings_ToLower L key \<noteq> ''accept-encoding''"
  proof -
    have "CanonicalMIMEHeaderKey key \<noteq> ''Accept-Encoding''"
      using that ToLower_of_canonical [OF valid_consts(6), of key L]
      by (auto simp only: lower_consts)
    then show ?thesis using Cons.prems by (simp add: foldl_header_Add_other)
  qed
  show ?case
    unfolding kv copy_request_headers.simps Let_def
    using Cons.IH [OF Cons.prems] Cons.IH [OF set] Cons.IH [OF add]
    by (simp only: split: if_splits) blast
qed

lemma copy_request_headers_AE:
  assumes "(key, vals) \<in> set inbound" and "strings_ToLower L key = ''accept-encoding''"
  shows "map_of (copy_request_headers L inbound h) ''Accept-Encoding'' = Some [''gzip, deflate'']"
  using assms(1)
proof (induction inbound arbitrary: h)
  case Nil
  then show ?case by simp
next
  case (Cons kv inbound)
  show ?case
  proof (cases "kv = (key, vals)")
    case True
    have "map_of (header_Set h ''Accept-Encoding'' ''gzip, deflate'') ''Accept-Encoding''
            = Some [''gzip, deflate'']"
      by (simp add: map_of_header_Set canon_consts)
    then show ?thesis
      using True assms(2) by (simp add: copy_request_headers_AE_kept)
  next
    case False
    then have in_rest: "(key, vals) \<in> set inbound" using Cons.prems by simp
    obtain k' vs' where kv: "kv = (k', vs')" by (cases kv)
    show ?thesis
      unfolding kv copy_request_headers.simps Let_def
      using Cons.IH [OF in_rest] by (simp only: split: if_splits) blast
  qed
qed

lemma ensure_User_Agent_other:
  "K \<noteq> ''User-Agent'' \<Longrightarrow> map_of (ensure_User_Agent h) K = map_of h K"
  by (simp add: ensure_User_Agent_def map_of_header_Set canon_consts)

lemma ensure_User_Agent_absent:
  "map_of h ''User-Agent'' = None \<Longrightarrow>
   map_of (ensure_User_Agent h) ''User-Agent'' = Some [''Binance-Proxy/1.0'']"
  by (simp add: ensure_User_Agent_def header_Get_def header_values_def map_of_header_Set
      canon_consts)

lemma ensure_User_Agent_Get: "header_Get (ensure_User_Agent h) ''User-Agent'' \<noteq> []"
  by (simp add: ensure_User_Agent_def header_Get_def header_values_def map_of_header_Set
      canon_consts)

lemma hop_free_absent:
  assumes "hop_free h" and "map asciiLower K = ''host'' \<or> map asciiLower K = ''connection''
      \<or> map asciiLower K = ''keep-alive''"
  shows "map_of h K = None"
proof (rule ccontr)
  assume "map_of h K \<noteq> None"
  then have "K \<in> fst ` set h" by (auto dest: map_of_SomeD intro: rev_image_eqI)
  then show False using assms by (auto simp: hop_free_def list_all_iff)
qed

section \<open>The properties of the specification\<close>

text \<open>
  C4. For every inbound path, normalization strips a leading \<^verbatim>\<open>/api\<close> if there is one
  and then makes sure the result starts with \<^verbatim>\<open>/\<close>, prepending one if it does not; the
  two examples of the specification come out as stated; and the URL of every request the
  handler dispatches is the upstream base URL followed by the normalized path (and then
  by the query string, if any).
\<close>

theorem normalize_path_correct:
  "prefix ''/'' (normalize_path p)
   \<and> normalize_path (''/api'' @ t) = (if prefix ''/'' t then t else ''/'' @ t)
   \<and> (\<not> prefix ''/api'' p \<longrightarrow> normalize_path p = (if prefix ''/'' p then p else ''/'' @ p))
   \<and> normalize_path ''/api/ticker/24hr'' = ''/ticker/24hr''
   \<and> normalize_path ''ticker/price'' = ''/ticker/price''
   \<and> target_base base p = base @ normalize_path p
   \<and> (\<forall>req \<in> set (rsp_Dispatched (ProxyRequest L srv r w)).
         out_URL req = binanceURL srv @ normalize_path (req_Path r)
                        @ query_suffix (convert_symbols L (req_Query r)))"
proof -
  have ex1: "normalize_path ''/api/ticker/24hr'' = ''/ticker/24hr''"
    using normalize_path_api [of "''/ticker/24hr''"] by simp
  have ex2: "normalize_path ''ticker/price'' = ''/ticker/price''"
    using normalize_path_other [of "''ticker/price''"] by simp
  have url: "\<forall>req \<in> set (rsp_Dispatched (ProxyRequest L srv r w)).
         out_URL req = binanceURL srv @ normalize_path (req_Path r)
                        @ query_suffix (convert_symbols L (req_Query r))"
    by (simp add: ProxyRequest_dispatched outbound_def targetURL_def target_base_def
        split: option.splits)
  show ?thesis
    using normalize_path_slash normalize_path_api normalize_path_other ex1 ex2 url
    by (simp add: target_base_def)
qed

theorem normalize_path_correct_witness:
  "\<not> prefix ''/api'' ''ticker/price''
   \<and> normalize_path ''ticker/price'' = ''/ticker/price''
   \<and> rsp_Dispatched (ProxyRequest stub_lib (stub_server (Inl ''refused''))
         (get_request ''/api/ticker/24hr'' [] []) []) \<noteq> []
   \<and> list_all (\<lambda>req. out_URL req = ''https://api.binance.com/api/v3/ticker/24hr'')
        (rsp_Dispatched (ProxyRequest stub_lib (stub_server (Inl ''refused''))
           (get_request ''/api/ticker/24hr'' [] []) []))"
  using normalize_path_correct [of "''ticker/price''" "''/x''" "[]" stub_lib
      "stub_server (Inl ''refused'')" "get_request ''/api/ticker/24hr'' [] []" "[]"]
  by (simp add: ProxyRequest_dispatched stub_lib_def stub_server_def get_request_def
      outbound_def targetURL_def target_base_def query_suffix_def convert_symbols_def
      list_all_iff)

text \<open>
  C6. A request with method OPTIONS never reaches the upstream dispatch: the middleware
  answers it without running the rest of the chain (whatever \<open>next\<close> is), the handler
  itself answers it before it builds a request, and in both cases nothing is dispatched,
  the status is 200, and the writer's header carries the three CORS headers and
  \<^verbatim>\<open>Access-Control-Max-Age\<close>.
\<close>

theorem options_preflight:
  assumes "req_Method r = ''OPTIONS''"
  shows "serve_NoRoute L p r =
           \<lparr>rsp_Status = 200, rsp_Header = cors_headers [], rsp_Body = NoBody,
            rsp_Dispatched = []\<rparr>
         \<and> cors_middleware r next w =
           \<lparr>rsp_Status = 200, rsp_Header = cors_headers w, rsp_Body = NoBody,
            rsp_Dispatched = []\<rparr>
         \<and> ProxyRequest L p r w =
           \<lparr>rsp_Status = 200, rsp_Header = cors_headers w, rsp_Body = NoBody,
            rsp_Dispatched = []\<rparr>
         \<and> map_of (cors_headers w) ''Access-Control-Allow-Origin'' = Some [''*'']
         \<and> map_of (cors_headers w) ''Access-Control-Allow-Methods''
             = Some [''GET, POST, PUT, DELETE, OPTIONS'']
         \<and> map_of (cors_headers w) ''Access-Control-Allow-Headers''
             = Some [''Content-Type, Authorization'']
         \<and> map_of (cors_headers w) ''Access-Control-Max-Age'' = Some [''3600'']"
  using assms
  by (simp add: serve_NoRoute_def cors_middleware_def ProxyRequest_OPTIONS map_of_cors_headers)

theorem options_preflight_witness:
  "rsp_Status (serve_NoRoute stub_lib (stub_server (Inl ''unreachable''))
      \<lparr>req_Method = ''OPTIONS'', req_Path = ''/api/ticker/price'', req_Query = [],
       req_Header = [], req_Body = []\<rparr>) = 200
   \<and> rsp_Dispatched (serve_NoRoute stub_lib (stub_server (Inl ''unreachable''))
      \<lparr>req_Method = ''OPTIONS'', req_Path = ''/api/ticker/price'', req_Query = [],
       req_Header = [], req_Body = []\<rparr>) = []"
  using options_preflight [of "\<lparr>req_Method = ''OPTIONS'', req_Path = ''/api/ticker/price'',
      req_Query = [], req_Header = [], req_Body = []\<rparr>" stub_lib
      "stub_server (Inl ''unreachable'')" "\<lambda>w. undefined" "[]"]
  by simp

text \<open>
  C7. When \<^verbatim>\<open>p.client.Do\<close> returns an error, the handler has dispatched the request once
  and no more, and it answers with status 502 and a JSON object with \<^verbatim>\<open>code\<close> -1000 and
  the fields \<^verbatim>\<open>msg\<close> and \<^verbatim>\<open>message\<close>.
\<close>

theorem transport_failure_502:
  assumes "req_Method r \<noteq> ''OPTIONS''"
    and "http_NewRequest L (req_Method r) (targetURL L p r) = None"
    and "client_Do p (outbound L p r) = Inl err"
  shows "rsp_Status (serve_NoRoute L p r) = 502
         \<and> rsp_Body (serve_NoRoute L p r) =
             JSONBody [(''code'', JNumber (- 1000)),
                       (''msg'', JString (''Erro ao conectar com Binance: '' @ err)),
                       (''message'', JString (''Erro ao conectar com Binance: '' @ err))]
         \<and> rsp_Dispatched (serve_NoRoute L p r) = [outbound L p r]
         \<and> rsp_Status (ProxyRequest L p r w) = 502
         \<and> rsp_Body (ProxyRequest L p r w) = rsp_Body (serve_NoRoute L p r)
         \<and> rsp_Dispatched (ProxyRequest L p r w) = [outbound L p r]"
  using assms
  by (simp add: serve_NoRoute_def cors_middleware_def ProxyRequest_def c_JSON_def Let_def)

theorem transport_failure_502_witness:
  "rsp_Status (serve_NoRoute stub_lib (stub_server (Inl ''connection refused''))
      (get_request ''/api/ticker/price'' [] [])) = 502
   \<and> length (rsp_Dispatched (serve_NoRoute stub_lib (stub_server (Inl ''connection refused''))
      (get_request ''/api/ticker/price'' [] []))) = 1"
  using transport_failure_502 [of "get_request ''/api/ticker/price'' [] []" stub_lib
      "stub_server (Inl ''connection refused'')" "''connection refused''" "[]"]
  by (simp add: get_request_def stub_lib_def stub_server_def)

text \<open>
  C2. When the upstream response declares \<^verbatim>\<open>Content-Encoding: gzip\<close> and its body
  decompresses, the proxied body is the decompressed bytes, the writer's header has no
  \<^verbatim>\<open>Content-Encoding\<close>, and its \<^verbatim>\<open>Content-Length\<close> is the decimal numeral of the number of
  decompressed bytes (\<^const>\<open>atoi\<close> reads it back); the status is the upstream's.
\<close>

theorem gzip_response_decompressed:
  assumes "req_Method r \<noteq> ''OPTIONS''"
    and "http_NewRequest L (req_Method r) (targetURL L p r) = None"
    and "client_Do p (outbound L p r) = Inr resp"
    and "resp_Body resp = Inr body"
    and "header_Get (resp_Header resp) ''Content-Encoding'' = ''gzip''"
    and "gunzip L body = Decompressed d"
  shows "rsp_Body (serve_NoRoute L p r) = DataBody d
         \<and> map_of (rsp_Header (serve_NoRoute L p r)) ''Content-Encoding'' = None
         \<and> map_of (rsp_Header (serve_NoRoute L p r)) ''Content-Length''
             = Some [decimal (length d)]
         \<and> atoi (decimal (length d)) = length d
         \<and> rsp_Status (serve_NoRoute L p r) = resp_StatusCode resp"
proof -
  have s: "serve_NoRoute L p r = relay L resp body (cors_headers []) [outbound L p r]"
    using assms(1-4) by (rule serve_NoRoute_relay)
  have b: "bodyToSend L ''gzip'' body = d"
    using assms(6) by (simp add: bodyToSend_def)
  have "map_of (rsp_Header (relay L resp body (cors_headers []) [outbound L p r]))
          ''Content-Encoding''
        = map_of (copy_response_headers L ''gzip'' (resp_Header resp) (cors_headers []))
            ''Content-Encoding''"
    using assms(5) by (simp add: relay_header_other)
  also have "\<dots> = map_of (cors_headers []) ''Content-Encoding''"
    by (rule copy_response_headers_gzip [OF valid_consts(1)]) (simp only: lower_consts simp_thms)
  also have "\<dots> = None" by (simp add: cors_headers_other)
  finally have ce: "map_of (rsp_Header (serve_NoRoute L p r)) ''Content-Encoding'' = None"
    by (simp add: s)
  show ?thesis
    using ce assms(5) b
    by (simp add: s relay_body relay_status relay_Content_Length atoi_decimal)
qed

theorem gzip_response_decompressed_witness:
  "rsp_Body (serve_NoRoute stub_lib (stub_server (Inr (stub_response [''gzip''] ''gz:hello'')))
      (get_request ''/api/klines'' [] [])) = DataBody ''hello''
   \<and> map_of (rsp_Header (serve_NoRoute stub_lib
        (stub_server (Inr (stub_response [''gzip''] ''gz:hello'')))
        (get_request ''/api/klines'' [] []))) ''Content-Length'' = Some [''5'']"
proof -
  let ?r = "get_request ''/api/klines'' [] []"
  let ?resp = "stub_response [''gzip''] ''gz:hello''"
  let ?p = "stub_server (Inr ?resp)"
  have 1: "req_Method ?r \<noteq> ''OPTIONS''" by (simp add: get_request_def)
  have 2: "http_NewRequest stub_lib (req_Method ?r) (targetURL stub_lib ?p ?r) = None"
    by (simp add: stub_lib_def)
  have 3: "client_Do ?p (outbound stub_lib ?p ?r) = Inr ?resp" by (simp add: stub_server_def)
  have 4: "resp_Body ?resp = Inr ''gz:hello''" by (simp add: stub_response_def)
  have 5: "header_Get (resp_Header ?resp) ''Content-Encoding'' = ''gzip''"
    by (simp add: stub_response_def header_Get_def header_values_def canon_consts)
  have 6: "gunzip stub_lib ''gz:hello'' = Decompressed ''hello''"
    by (simp add: stub_lib_def strings_HasPrefix_def)
  have 7: "decimal (length ''hello'') = ''5''" by code_simp
  show ?thesis
    using gzip_response_decompressed [OF 1 2 3 4 5 6] 7 by simp
qed

text \<open>
  C1. The specification says that a response declared \<^verbatim>\<open>gzip\<close> whose body does not decompress
  is relayed with its bytes and its \<^verbatim>\<open>Content-Encoding\<close> intact. The bytes and the status
  are relayed, but lines 240-246 test the declared encoding, not whether decompression
  happened, so the header is dropped (lemma \<open>gzip_fallback\<close> has the general statement).
  Here is the handler on such a response: upstream sent \<^verbatim>\<open>Content-Encoding: gzip\<close> and the
  eight bytes \<^verbatim>\<open>notgzip!\<close>; the client gets the same eight bytes, status 200, and no
  \<^verbatim>\<open>Content-Encoding\<close>.
\<close>

theorem corrupt_gzip_loses_Content_Encoding:
  "map_of (resp_Header (stub_response [''gzip''] ''notgzip!'')) ''Content-Encoding''
     = Some [''gzip'']
   \<and> gunzip stub_lib ''notgzip!'' = NewReaderError
   \<and> rsp_Status (serve_NoRoute stub_lib
        (stub_server (Inr (stub_response [''gzip''] ''notgzip!'')))
        (get_request ''/api/klines'' [] [])) = 200
   \<and> rsp_Body (serve_NoRoute stub_lib
        (stub_server (Inr (stub_response [''gzip''] ''notgzip!'')))
        (get_request ''/api/klines'' [] [])) = DataBody ''notgzip!''
   \<and> map_of (rsp_Header (serve_NoRoute stub_lib
        (stub_server (Inr (stub_response [''gzip''] ''notgzip!'')))
        (get_request ''/api/klines'' [] []))) ''Content-Encoding'' = None"
proof -
  let ?r = "get_request ''/api/klines'' [] []"
  let ?resp = "stub_response [''gzip''] ''notgzip!''"
  let ?p = "stub_server (Inr ?resp)"
  have 1: "req_Method ?r \<noteq> ''OPTIONS''" by (simp add: get_request_def)
  have 2: "http_NewRequest stub_lib (req_Method ?r) (targetURL stub_lib ?p ?r) = None"
    by (simp add: stub_lib_def)
  have 3: "client_Do ?p (outbound stub_lib ?p ?r) = Inr ?resp" by (simp add: stub_server_def)
  have 4: "resp_Body ?resp = Inr ''notgzip!''" by (simp add: stub_response_def)
  have 5: "header_Get (resp_Header ?resp) ''Content-Encoding'' = ''gzip''"
    by (simp add: stub_response_def header_Get_def header_values_def canon_consts)
  have 6: "gunzip stub_lib ''notgzip!'' = NewReaderError"
    by (simp add: stub_lib_def strings_HasPrefix_def)
  have 7: "resp_StatusCode ?resp = 200" by (simp add: stub_response_def)
  have 8: "map_of (resp_Header ?resp) ''Content-Encoding'' = Some [''gzip'']"
    by (simp add: stub_response_def)
  show ?thesis
    using gzip_fallback [OF 1 2 3 4 5 disjI1 [OF 6]] 6 7 8 by simp
qed

text \<open>
  What the relay does with the body and with the headers of a response whose keys are
  canonical. It decompresses exactly when the first \<^verbatim>\<open>Content-Encoding\<close> value is the
  string \<^verbatim>\<open>gzip\<close>: then the body is what \<open>gunzip\<close> gives (or the original on its
  failure); for any other value the body is relayed as it came and the answer does not
  depend on \<open>gunzip\<close> at all. Of the values of \<^verbatim>\<open>Content-Encoding\<close> and of
  \<^verbatim>\<open>Content-Length\<close> the writer then keeps the last one, which is the header itself when
  it has one value.
\<close>

lemma gzip_only_decompression:
  assumes "req_Method r \<noteq> ''OPTIONS''"
    and "http_NewRequest L (req_Method r) (targetURL L p r) = None"
    and "client_Do p (outbound L p r) = Inr resp"
    and "resp_Body resp = Inr body"
    and "canonical_keys (resp_Header resp)"
  shows "(header_Get (resp_Header resp) ''Content-Encoding'' = ''gzip'' \<longrightarrow>
            rsp_Body (serve_NoRoute L p r) =
              DataBody (case gunzip L body of Decompressed d \<Rightarrow> d | _ \<Rightarrow> body))
         \<and> (header_Get (resp_Header resp) ''Content-Encoding'' \<noteq> ''gzip'' \<longrightarrow>
              rsp_Body (serve_NoRoute L p r) = DataBody body
              \<and> serve_NoRoute (L\<lparr>gunzip := g\<rparr>) p r = serve_NoRoute L p r
              \<and> (\<forall>vs. map_of (resp_Header resp) ''Content-Encoding'' = Some vs \<and> vs \<noteq> [] \<longrightarrow>
                     map_of (rsp_Header (serve_NoRoute L p r)) ''Content-Encoding''
                       = (if last vs = [] then None else Some [last vs]))
              \<and> (\<forall>vs. map_of (resp_Header resp) ''Content-Length'' = Some vs \<and> vs \<noteq> []
                        \<and> last vs \<noteq> [] \<longrightarrow>
                     map_of (rsp_Header (serve_NoRoute L p r)) ''Content-Length''
                       = Some [last vs]))"
proof -
  let ?ce = "header_Get (resp_Header resp) ''Content-Encoding''"
  let ?w = "cors_headers []"
  have s: "serve_NoRoute L p r = relay L resp body ?w [outbound L p r]"
    using assms(1-4) by (rule serve_NoRoute_relay)
  have gz: "rsp_Body (serve_NoRoute L p r) =
              DataBody (case gunzip L body of Decompressed d \<Rightarrow> d | _ \<Rightarrow> body)"
    if "?ce = ''gzip''"
    using that by (simp add: s relay_body bodyToSend_def split: gzip_result.splits)
  have plain: "rsp_Body (serve_NoRoute L p r) = DataBody body" if "?ce \<noteq> ''gzip''"
    using that by (simp add: s relay_body bodyToSend_plain)
  have indep: "serve_NoRoute (L\<lparr>gunzip := g\<rparr>) p r = serve_NoRoute L p r" if "?ce \<noteq> ''gzip''"
  proof -
    have "serve_NoRoute (L\<lparr>gunzip := g\<rparr>) p r
            = relay (L\<lparr>gunzip := g\<rparr>) resp body ?w [outbound (L\<lparr>gunzip := g\<rparr>) p r]"
      using assms(1-4) by (intro serve_NoRoute_relay) simp_all
    then show ?thesis using that by (simp add: s relay_gunzip)
  qed
  have enc: "map_of (rsp_Header (serve_NoRoute L p r)) ''Content-Encoding''
               = (if last vs = [] then None else Some [last vs])"
    if "?ce \<noteq> ''gzip''" "map_of (resp_Header resp) ''Content-Encoding'' = Some vs" "vs \<noteq> []"
    for vs
    using that assms(5) by (simp add: s relay_header_other copy_response_headers_plain)
  have len: "map_of (rsp_Header (serve_NoRoute L p r)) ''Content-Length'' = Some [last vs]"
    if "?ce \<noteq> ''gzip''" "map_of (resp_Header resp) ''Content-Length'' = Some vs" "vs \<noteq> []"
      "last vs \<noteq> []"
    for vs
  proof -
    have c: "map_of (copy_response_headers L ?ce (resp_Header resp) ?w) ''Content-Length''
               = Some [last vs]"
      using that assms(5) by (simp add: copy_response_headers_plain)
    then have "header_Get (copy_response_headers L ?ce (resp_Header resp) ?w) ''Content-Length''
                 = last vs"
      by (simp add: header_Get_def header_values_def canon_consts)
    then show ?thesis
      using that(1,4) c by (simp add: s relay_Content_Length Let_def)
  qed
  show ?thesis using gz plain indep enc len by blast
qed

lemma gzip_only_decompression_instance:
  "header_Get (resp_Header (stub_response [''deflate''] ''12345678'')) ''Content-Encoding''
     \<noteq> ''gzip''
   \<and> rsp_Body (serve_NoRoute stub_lib
        (stub_server (Inr (stub_response [''deflate''] ''12345678'')))
        (get_request ''/api/klines'' [] [])) = DataBody ''12345678''
   \<and> map_of (rsp_Header (serve_NoRoute stub_lib
        (stub_server (Inr (stub_response [''deflate''] ''12345678'')))
        (get_request ''/api/klines'' [] []))) ''Content-Encoding'' = Some [''deflate'']
   \<and> map_of (rsp_Header (serve_NoRoute stub_lib
        (stub_server (Inr (stub_response [''deflate''] ''12345678'')))
        (get_request ''/api/klines'' [] []))) ''Content-Length'' = Some [''8'']"
proof -
  let ?r = "get_request ''/api/klines'' [] []"
  let ?resp = "stub_response [''deflate''] ''12345678''"
  let ?p = "stub_server (Inr ?resp)"
  have 1: "req_Method ?r \<noteq> ''OPTIONS''" by (simp add: get_request_def)
  have 2: "http_NewRequest stub_lib (req_Method ?r) (targetURL stub_lib ?p ?r) = None"
    by (simp add: stub_lib_def)
  have 3: "client_Do ?p (outbound stub_lib ?p ?r) = Inr ?resp" by (simp add: stub_server_def)
  have 4: "resp_Body ?resp = Inr ''12345678''" by (simp add: stub_response_def)
  have 5: "canonical_keys (resp_Header ?resp)"
    by (simp add: stub_response_def canonical_keys_def canon_consts)
  have 6: "header_Get (resp_Header ?resp) ''Content-Encoding'' \<noteq> ''gzip''"
    by (simp add: stub_response_def header_Get_def header_values_def canon_consts)
  have 7: "map_of (resp_Header ?resp) ''Content-Encoding'' = Some [''deflate'']"
    "map_of (resp_Header ?resp) ''Content-Length'' = Some [''8'']"
    by (simp_all add: stub_response_def)
  show ?thesis
    using gzip_only_decompression [OF 1 2 3 4 5, of "\<lambda>b. ReadAllError"] 6 7 by simp
qed

text \<open>
  C10. The specification says that a response with an encoding other than \<^verbatim>\<open>gzip\<close> is
  relayed with its body as it came and with \<^verbatim>\<open>Content-Encoding\<close> and \<^verbatim>\<open>Content-Length\<close>
  passed through unchanged. The body is (lemma \<open>gzip_only_decompression\<close>), and so is a
  header with one value. But lines 247-249 loop over every value of a key and call
  \<^verbatim>\<open>c.Header\<close>, which replaces what the key had, where the loop over the request header
  (lines 153-155) calls \<^verbatim>\<open>Add\<close>: a header with several values reaches the client with
  its last value only. Here is the handler on an upstream response that declares the two
  values \<^verbatim>\<open>deflate\<close> and \<^verbatim>\<open>br\<close>: the first is not \<^verbatim>\<open>gzip\<close>, the bytes are relayed, and
  the client is told \<^verbatim>\<open>br\<close> alone.
\<close>

theorem multi_valued_encoding_collapsed:
  "canonical_keys (resp_Header (stub_response [''deflate'', ''br''] ''12345678''))
   \<and> header_Get (resp_Header (stub_response [''deflate'', ''br''] ''12345678''))
        ''Content-Encoding'' = ''deflate''
   \<and> map_of (resp_Header (stub_response [''deflate'', ''br''] ''12345678''))
        ''Content-Encoding'' = Some [''deflate'', ''br'']
   \<and> map_of (rsp_Header (serve_NoRoute stub_lib
        (stub_server (Inr (stub_response [''deflate'', ''br''] ''12345678'')))
        (get_request ''/api/klines'' [] []))) ''Content-Encoding'' = Some [''br'']
   \<and> rsp_Body (serve_NoRoute stub_lib
        (stub_server (Inr (stub_response [''deflate'', ''br''] ''12345678'')))
        (get_request ''/api/klines'' [] [])) = DataBody ''12345678''"
proof -
  let ?r = "get_request ''/api/klines'' [] []"
  let ?resp = "stub_response [''deflate'', ''br''] ''12345678''"
  let ?p = "stub_server (Inr ?resp)"
  have 1: "req_Method ?r \<noteq> ''OPTIONS''" by (simp add: get_request_def)
  have 2: "http_NewRequest stub_lib (req_Method ?r) (targetURL stub_lib ?p ?r) = None"
    by (simp add: stub_lib_def)
  have 3: "client_Do ?p (outbound stub_lib ?p ?r) = Inr ?resp" by (simp add: stub_server_def)
  have 4: "resp_Body ?resp = Inr ''12345678''" by (simp add: stub_response_def)
  have 5: "canonical_keys (resp_Header ?resp)"
    by (simp add: stub_response_def canonical_keys_def canon_consts)
  have 6: "header_Get (resp_Header ?resp) ''Content-Encoding'' = ''deflate''"
    by (simp add: stub_response_def header_Get_def header_values_def canon_consts)
  have 7: "map_of (resp_Header ?resp) ''Content-Encoding'' = Some [''deflate'', ''br'']"
    by (simp add: stub_response_def)
  have "map_of (rsp_Header (serve_NoRoute stub_lib ?p ?r)) ''Content-Encoding'' = Some [''br'']"
    using 6 7 5
    by (simp add: serve_NoRoute_relay [OF 1 2 3 4] relay_header_other
        copy_response_headers_plain)
  moreover have "rsp_Body (serve_NoRoute stub_lib ?p ?r) = DataBody ''12345678''"
    using 6 by (simp add: serve_NoRoute_relay [OF 1 2 3 4] relay_body bodyToSend_plain)
  ultimately show ?thesis using 5 6 7 by simp
qed

text \<open>
  C5. On a \<^verbatim>\<open>symbols\<close> value that starts with \<^verbatim>\<open>[\<close> the transformation changes nothing, so
  applying it twice is applying it once; the example of the specification is the closed
  instance that follows.
\<close>

theorem symbols_array_unchanged:
  assumes "map_of q ''symbols'' = Some (v # vs)" and "prefix ''['' v"
  shows "convert_symbols L q = q
         \<and> convert_symbols L (convert_symbols L q) = convert_symbols L q"
proof -
  have "convert_symbols L q = q" using assms by (rule convert_symbols_array)
  then show ?thesis by simp
qed

theorem symbols_array_unchanged_witness:
  "convert_symbols stub_lib
     [(''symbols'', [''['' @ quoted ''BTCUSDT'' @ '','' @ quoted ''ETHUSDT'' @ '']''])]
   = [(''symbols'', [''['' @ quoted ''BTCUSDT'' @ '','' @ quoted ''ETHUSDT'' @ '']''])]"
  using symbols_array_unchanged [of
      "[(''symbols'', [''['' @ quoted ''BTCUSDT'' @ '','' @ quoted ''ETHUSDT'' @ '']''])]"
      "''['' @ quoted ''BTCUSDT'' @ '','' @ quoted ''ETHUSDT'' @ '']''" "[]" stub_lib]
  by simp



text \<open>
  C9. The specification says that every value of every repeated query key is carried
  onto the outbound request. That holds for every key but \<^verbatim>\<open>symbols\<close>: the key keeps its
  list of values, in order, and the outbound query string is the \<^verbatim>\<open>&\<close>-joined list of
  \<^verbatim>\<open>key=value\<close> pairs, over the keys in sorted order and each key's values in their
  order. The key \<^verbatim>\<open>symbols\<close> keeps its values when it has none, when the first one starts
  with \<^verbatim>\<open>[\<close>, and when \<^verbatim>\<open>json.Marshal\<close> fails; whenever the first value does not start
  with \<^verbatim>\<open>[\<close> and \<^verbatim>\<open>json.Marshal\<close> succeeds, \<^verbatim>\<open>queryParams.Set\<close> leaves the key with
  exactly one value, the JSON array made from the first value, and the further values
  are not carried.
\<close>

theorem query_values_carried:
  "(k \<noteq> ''symbols'' \<longrightarrow>
      values_lookup (convert_symbols L (req_Query r)) k = values_lookup (req_Query r) k)
   \<and> (values_lookup (req_Query r) ''symbols'' = [] \<longrightarrow>
        values_lookup (convert_symbols L (req_Query r)) ''symbols'' = [])
   \<and> (\<forall>v vs. map_of (req_Query r) ''symbols'' = Some (v # vs) \<and> prefix ''['' v \<longrightarrow>
          values_lookup (convert_symbols L (req_Query r)) ''symbols'' = v # vs)
   \<and> (\<forall>v vs j. map_of (req_Query r) ''symbols'' = Some (v # vs) \<and> \<not> prefix ''['' v
          \<and> json_Marshal L (map (strings_TrimSpace L) (strings_Split v CHR '','')) = Inr j \<longrightarrow>
          values_lookup (convert_symbols L (req_Query r)) ''symbols'' = [j])
   \<and> (\<forall>v vs e. map_of (req_Query r) ''symbols'' = Some (v # vs) \<and> \<not> prefix ''['' v
          \<and> json_Marshal L (map (strings_TrimSpace L) (strings_Split v CHR '','')) = Inl e \<longrightarrow>
          values_lookup (convert_symbols L (req_Query r)) ''symbols'' = v # vs)
   \<and> out_URL (outbound L p r)
       = binanceURL p @ normalize_path (req_Path r)
         @ (if req_Query r = [] then []
            else ''?'' @ join ''&''
                   (concat (map (\<lambda>k. map (\<lambda>v. QueryEscape k @ ''='' @ QueryEscape v)
                                       (values_lookup (convert_symbols L (req_Query r)) k))
                              (values_keys (convert_symbols L (req_Query r))))))"
proof -
  let ?q = "req_Query r"
  have other: "values_lookup (convert_symbols L ?q) k = values_lookup ?q k" if "k \<noteq> ''symbols''"
    using that by (simp add: values_lookup_def convert_symbols_other)
  have none: "values_lookup (convert_symbols L ?q) ''symbols'' = []"
    if "values_lookup ?q ''symbols'' = []"
  proof -
    have "convert_symbols L ?q = ?q"
      using that
      by (auto simp: convert_symbols_def values_lookup_def split: option.splits list.splits)
    then show ?thesis using that by simp
  qed
  have array: "values_lookup (convert_symbols L ?q) ''symbols'' = v # vs"
    if "map_of ?q ''symbols'' = Some (v # vs)" "prefix ''['' v" for v vs
    using that by (simp add: convert_symbols_array values_lookup_def)
  have conv: "convert_symbols L ?q =
                (case json_Marshal L (map (strings_TrimSpace L) (strings_Split v CHR '','')) of
                   Inr j \<Rightarrow> values_Set ?q ''symbols'' j | Inl e \<Rightarrow> ?q)"
    if "map_of ?q ''symbols'' = Some (v # vs)" "\<not> prefix ''['' v" for v vs
    using that by (rule convert_symbols_list)
  have one: "values_lookup (convert_symbols L ?q) ''symbols'' = [j]"
    if "map_of ?q ''symbols'' = Some (v # vs)" "\<not> prefix ''['' v"
      "json_Marshal L (map (strings_TrimSpace L) (strings_Split v CHR '','')) = Inr j"
    for v vs j
    using that(3) by (simp add: conv [OF that(1,2)] values_lookup_def values_Set_def update_conv')
  have failed: "values_lookup (convert_symbols L ?q) ''symbols'' = v # vs"
    if "map_of ?q ''symbols'' = Some (v # vs)" "\<not> prefix ''['' v"
      "json_Marshal L (map (strings_TrimSpace L) (strings_Split v CHR '','')) = Inl e"
    for v vs e
    using that(1,3) by (simp add: conv [OF that(1,2)] values_lookup_def)
  have url: "out_URL (outbound L p r)
       = binanceURL p @ normalize_path (req_Path r)
         @ (if ?q = [] then []
            else ''?'' @ join ''&''
                   (concat (map (\<lambda>k. map (\<lambda>v. QueryEscape k @ ''='' @ QueryEscape v)
                                       (values_lookup (convert_symbols L ?q) k))
                              (values_keys (convert_symbols L ?q)))))"
    by (simp add: outbound_def targetURL_def target_base_def query_suffix_def
        convert_symbols_empty values_Encode_join)
  show ?thesis
    apply (intro conjI impI allI)
    subgoal by (rule other)
    subgoal by (rule none)
    subgoal by (elim conjE) (rule array)
    subgoal by (elim conjE) (rule one)
    subgoal by (elim conjE) (rule failed)
    subgoal by (rule url)
    done
qed

theorem query_values_carried_witness:
  "''limit'' \<noteq> ''symbols''
   \<and> values_lookup (convert_symbols stub_lib
        (req_Query (get_request ''/klines'' [(''symbols'', [''A,B'']), (''limit'', [''5'', ''7''])] [])))
        ''limit'' = [''5'', ''7'']
   \<and> values_lookup (convert_symbols stub_lib
        (req_Query (get_request ''/klines'' [(''symbols'', [''A,B'']), (''limit'', [''5'', ''7''])] [])))
        ''symbols'' = [''['' @ quoted ''A'' @ '','' @ quoted ''B'' @ '']'']
   \<and> values_lookup (convert_symbols stub_lib
        (req_Query (get_request ''/klines'' [(''symbols'', [''[A]'', ''B''])] [])))
        ''symbols'' = [''[A]'', ''B'']
   \<and> values_lookup (convert_symbols (stub_lib\<lparr>json_Marshal := (\<lambda>xs. Inl ''unsupported value'')\<rparr>)
        (req_Query (get_request ''/klines'' [(''symbols'', [''A,B'', ''C''])] [])))
        ''symbols'' = [''A,B'', ''C'']
   \<and> values_lookup (convert_symbols stub_lib
        (req_Query (get_request ''/klines'' [(''limit'', [''5''])] []))) ''symbols'' = []
   \<and> out_URL (outbound stub_lib (stub_server (Inl ''refused''))
        (get_request ''/klines'' [(''symbols'', [''A,B'']), (''limit'', [''5'', ''7''])] []))
     = ''https://api.binance.com/api/v3/klines?limit=5&limit=7&symbols=%5B%22A%22%2C%22B%22%5D''"
proof -
  let ?r = "get_request ''/klines'' [(''symbols'', [''A,B'']), (''limit'', [''5'', ''7''])] []"
  let ?ra = "get_request ''/klines'' [(''symbols'', [''[A]'', ''B''])] []"
  let ?rf = "get_request ''/klines'' [(''symbols'', [''A,B'', ''C''])] []"
  let ?rn = "get_request ''/klines'' [(''limit'', [''5''])] []"
  let ?bad = "stub_lib\<lparr>json_Marshal := (\<lambda>xs. Inl ''unsupported value'')\<rparr>"
  let ?p = "stub_server (Inl ''refused'')"
  have 1: "values_lookup (req_Query ?r) ''limit'' = [''5'', ''7'']"
    by (simp add: get_request_def values_lookup_def)
  have 2: "out_URL (outbound stub_lib ?p ?r)
     = ''https://api.binance.com/api/v3/klines?limit=5&limit=7&symbols=%5B%22A%22%2C%22B%22%5D''"
    by code_simp
  have 3: "map_of (req_Query ?r) ''symbols'' = Some (''A,B'' # [])" "\<not> prefix ''['' ''A,B''"
    by (simp_all add: get_request_def)
  have 4: "json_Marshal stub_lib (map (strings_TrimSpace stub_lib) (strings_Split ''A,B'' CHR '',''))
             = Inr (''['' @ quoted ''A'' @ '','' @ quoted ''B'' @ '']'')"
    by (simp add: stub_lib_def go_json_Marshal_def isASCII_def asciiSpace_def htmlSafe_def
        quoted_def)
  have 5: "map_of (req_Query ?ra) ''symbols'' = Some (''[A]'' # [''B''])" "prefix ''['' ''[A]''"
    by (simp_all add: get_request_def)
  have 6: "map_of (req_Query ?rf) ''symbols'' = Some (''A,B'' # [''C''])"
    by (simp add: get_request_def)
  have 7: "json_Marshal ?bad (map (strings_TrimSpace ?bad) (strings_Split ''A,B'' CHR '',''))
             = Inl ''unsupported value''"
    by simp
  have 8: "values_lookup (req_Query ?rn) ''symbols'' = []"
    by (simp add: get_request_def values_lookup_def)
  have a: "values_lookup (convert_symbols stub_lib (req_Query ?r)) ''limit'' = [''5'', ''7'']"
    and b: "values_lookup (convert_symbols stub_lib (req_Query ?r)) ''symbols''
              = [''['' @ quoted ''A'' @ '','' @ quoted ''B'' @ '']'']"
    using query_values_carried [of "''limit''" stub_lib ?r ?p] 1 3 4 by (simp, blast)
  have c: "values_lookup (convert_symbols stub_lib (req_Query ?ra)) ''symbols'' = [''[A]'', ''B'']"
    using query_values_carried [of "''limit''" stub_lib ?ra ?p] 5 by blast
  have d: "values_lookup (convert_symbols ?bad (req_Query ?rf)) ''symbols'' = [''A,B'', ''C'']"
    using query_values_carried [of "''limit''" ?bad ?rf ?p] 6 3(2) 7 by blast
  have e: "values_lookup (convert_symbols stub_lib (req_Query ?rn)) ''symbols'' = []"
    using query_values_carried [of "''limit''" stub_lib ?rn ?p] 8 by blast
  show ?thesis using a b c d e 2 by simp
qed

theorem repeated_symbols_value_dropped:
  "values_lookup (req_Query (get_request ''/klines'' [(''symbols'', [''A,B'', ''C''])] []))
      ''symbols'' = [''A,B'', ''C'']
   \<and> values_lookup (convert_symbols stub_lib
        (req_Query (get_request ''/klines'' [(''symbols'', [''A,B'', ''C''])] []))) ''symbols''
     = [''['' @ quoted ''A'' @ '','' @ quoted ''B'' @ '']'']
   \<and> out_URL (outbound stub_lib (stub_server (Inl ''refused''))
        (get_request ''/klines'' [(''symbols'', [''A,B'', ''C''])] []))
     = ''https://api.binance.com/api/v3/klines?symbols=%5B%22A%22%2C%22B%22%5D''"
proof -
  let ?r = "get_request ''/klines'' [(''symbols'', [''A,B'', ''C''])] []"
  have 1: "values_lookup (req_Query ?r) ''symbols'' = [''A,B'', ''C'']"
    by (simp add: get_request_def values_lookup_def)
  have 2: "values_lookup (convert_symbols stub_lib (req_Query ?r)) ''symbols''
             = [''['' @ quoted ''A'' @ '','' @ quoted ''B'' @ '']'']"
    by code_simp
  have 3: "out_URL (outbound stub_lib (stub_server (Inl ''refused'')) ?r)
     = ''https://api.binance.com/api/v3/klines?symbols=%5B%22A%22%2C%22B%22%5D''"
    by code_simp
  show ?thesis using 1 2 3 by blast
qed

text \<open>
  C8. The header of the outbound request has no key that is \<^verbatim>\<open>host\<close>, \<^verbatim>\<open>connection\<close> or
  \<^verbatim>\<open>keep-alive\<close> in any letter case, so none of the three canonical keys; when the
  inbound header has a key that is \<^verbatim>\<open>accept-encoding\<close> in any letter case, the outbound
  \<^verbatim>\<open>Accept-Encoding\<close> is the one value \<^verbatim>\<open>gzip, deflate\<close>; when the copy left no
  \<^verbatim>\<open>User-Agent\<close>, the outbound one is \<^verbatim>\<open>Binance-Proxy/1.0\<close>, and in every case
  \<^verbatim>\<open>Get("User-Agent")\<close> is not empty. This header is the header of every request the
  handler dispatches.
\<close>

theorem outbound_header_hygiene:
  "list_all (\<lambda>K. map asciiLower K \<noteq> ''host'' \<and> map asciiLower K \<noteq> ''connection''
                \<and> map asciiLower K \<noteq> ''keep-alive'')
      (map fst (out_Header (outbound L p r)))
   \<and> map_of (out_Header (outbound L p r)) ''Host'' = None
   \<and> map_of (out_Header (outbound L p r)) ''Connection'' = None
   \<and> map_of (out_Header (outbound L p r)) ''Keep-Alive'' = None
   \<and> ((key, vals) \<in> set (req_Header r) \<and> map asciiLower key = ''accept-encoding'' \<longrightarrow>
         map_of (out_Header (outbound L p r)) ''Accept-Encoding'' = Some [''gzip, deflate''])
   \<and> (map_of (copy_request_headers L (req_Header r) []) ''User-Agent'' = None \<longrightarrow>
         map_of (out_Header (outbound L p r)) ''User-Agent'' = Some [''Binance-Proxy/1.0''])
   \<and> header_Get (out_Header (outbound L p r)) ''User-Agent'' \<noteq> []
   \<and> list_all (\<lambda>req. req = outbound L p r) (rsp_Dispatched (ProxyRequest L p r w))"
proof -
  let ?h = "out_Header (outbound L p r)"
  have h: "?h = outbound_header L (req_Header r)" by (simp add: outbound_def)
  have free: "hop_free ?h" unfolding h by (rule hop_free_outbound_header)
  have host: "map_of ?h ''Host'' = None"
    using free by (rule hop_free_absent) (simp only: lower_consts simp_thms)
  have conn: "map_of ?h ''Connection'' = None"
    using free by (rule hop_free_absent) (simp only: lower_consts simp_thms)
  have keep: "map_of ?h ''Keep-Alive'' = None"
    using free by (rule hop_free_absent) (simp only: lower_consts simp_thms)
  have ae: "map_of ?h ''Accept-Encoding'' = Some [''gzip, deflate'']"
    if "(key, vals) \<in> set (req_Header r)" "map asciiLower key = ''accept-encoding''"
  proof -
    have "list_all isASCII ''accept-encoding''"
      using valid_lower_consts(4) by (rule list_all_valid_ASCII)
    then have "strings_ToLower L key = ''accept-encoding''"
      using that(2) by (rule ToLower_of_lower)
    with that(1)
    have "map_of (copy_request_headers L (req_Header r) []) ''Accept-Encoding''
            = Some [''gzip, deflate'']"
      by (rule copy_request_headers_AE)
    then show ?thesis
      by (simp add: h outbound_header_def ensure_User_Agent_other)
  qed
  have ua: "map_of ?h ''User-Agent'' = Some [''Binance-Proxy/1.0'']"
    if "map_of (copy_request_headers L (req_Header r) []) ''User-Agent'' = None"
    using that by (simp add: h outbound_header_def ensure_User_Agent_absent)
  have get: "header_Get ?h ''User-Agent'' \<noteq> []"
    by (simp add: h outbound_header_def ensure_User_Agent_Get)
  have sent: "list_all (\<lambda>req. req = outbound L p r) (rsp_Dispatched (ProxyRequest L p r w))"
    by (simp add: ProxyRequest_dispatched split: option.splits)
  show ?thesis
    using free [unfolded hop_free_def] host conn keep ae ua get sent
    by (intro conjI impI) (simp_all only: simp_thms)
qed

theorem outbound_header_hygiene_witness:
  "(''Accept-Encoding'', [''br'']) \<in> set (req_Header (get_request ''/api/klines'' []
        [(''Host'', [''proxy.local'']), (''Connection'', [''keep-alive'']),
         (''Accept-Encoding'', [''br'']), (''X-Trace'', [''1'', ''2''])]))
   \<and> map asciiLower ''Accept-Encoding'' = ''accept-encoding''
   \<and> out_Header (outbound stub_lib (stub_server (Inl ''refused''))
        (get_request ''/api/klines'' []
          [(''Host'', [''proxy.local'']), (''Connection'', [''keep-alive'']),
           (''Accept-Encoding'', [''br'']), (''X-Trace'', [''1'', ''2''])]))
     = [(''Accept-Encoding'', [''gzip, deflate'']), (''X-Trace'', [''1'', ''2'']),
        (''User-Agent'', [''Binance-Proxy/1.0''])]
   \<and> map_of (out_Header (outbound stub_lib (stub_server (Inl ''refused''))
        (get_request ''/api/klines'' []
          [(''Host'', [''proxy.local'']), (''Connection'', [''keep-alive'']),
           (''Accept-Encoding'', [''br'']), (''X-Trace'', [''1'', ''2''])]))) ''Host'' = None
   \<and> map_of (out_Header (outbound stub_lib (stub_server (Inl ''refused''))
        (get_request ''/api/klines'' []
          [(''Host'', [''proxy.local'']), (''Connection'', [''keep-alive'']),
           (''Accept-Encoding'', [''br'']), (''X-Trace'', [''1'', ''2''])])))
        ''Accept-Encoding'' = Some [''gzip, deflate'']"
proof -
  let ?r = "get_request ''/api/klines'' []
          [(''Host'', [''proxy.local'']), (''Connection'', [''keep-alive'']),
           (''Accept-Encoding'', [''br'']), (''X-Trace'', [''1'', ''2''])]"
  have 1: "(''Accept-Encoding'', [''br'']) \<in> set (req_Header ?r)"
    by (simp add: get_request_def)
  have 2: "map asciiLower ''Accept-Encoding'' = ''accept-encoding''"
    by (rule lower_consts)
  have 3: "out_Header (outbound stub_lib (stub_server (Inl ''refused'')) ?r)
     = [(''Accept-Encoding'', [''gzip, deflate'']), (''X-Trace'', [''1'', ''2'']),
        (''User-Agent'', [''Binance-Proxy/1.0''])]"
    by code_simp
  show ?thesis
    using outbound_header_hygiene [of stub_lib "stub_server (Inl ''refused'')" ?r
        "''Accept-Encoding''" "[''br'']" "[]"] 1 2 3
    by blast
qed

end
